theory Spec2Isabelle
  imports Main "HOL-Library.AList" "HOL-Library.Char_ord" "HOL-Library.List_Lexorder"
begin

section \<open>Python values used by \<open>lingpy/basic/dictionary.py\<close>\<close>

text \<open>
  The exceptions the methods of \<open>Dictionary\<close> can raise. \<open>KeyError\<close> comes from a
  dict lookup, \<open>IndexError\<close> from a list index, \<open>ValueError\<close> from \<open>max\<close> of an empty
  sequence, \<open>EOFError\<close> from \<open>input\<close> at the end of the input, \<open>TypeError\<close> from a
  call with the wrong arguments; \<open>Failure\<close> stands for whatever else a transform
  function supplied by the caller raises.
\<close>

datatype error = KeyError | IndexError | ValueError | EOFError | TypeError | Failure

text \<open>
  A Python \<open>dict\<close> is an association list with distinct keys, in insertion order:
  \<open>k in d\<close> is \<open>contains d k\<close>, \<open>d[k]\<close> is \<open>getitem d k\<close>, and \<open>d[k] = v\<close> is
  \<open>AList.update k v d\<close> (an existing key keeps its place, a new one goes last).
\<close>

definition contains :: "('k \<times> 'a) list \<Rightarrow> 'k \<Rightarrow> bool" where
  "contains d k = (map_of d k \<noteq> None)"

definition getitem :: "('k \<times> 'a) list \<Rightarrow> 'k \<Rightarrow> error + 'a" where
  "getitem d k = (case map_of d k of None \<Rightarrow> Inl KeyError | Some v \<Rightarrow> Inr v)"

text \<open>\<open>[d[k] for k in ks]\<close>: the first missing key raises.\<close>

fun getitems :: "('k \<times> 'a) list \<Rightarrow> 'k list \<Rightarrow> error + 'a list" where
  "getitems d [] = Inr []"
| "getitems d (k # ks) =
     (case getitem d k of
        Inl e \<Rightarrow> Inl e
      | Inr v \<Rightarrow> (case getitems d ks of Inl e \<Rightarrow> Inl e | Inr vs \<Rightarrow> Inr (v # vs)))"

text \<open>\<open>max(xs)\<close> raises \<open>ValueError\<close> on an empty sequence.\<close>

fun py_max :: "int list \<Rightarrow> error + int" where
  "py_max [] = Inl ValueError"
| "py_max (x # xs) = Inr (fold max xs x)"

text \<open>
  List indexing: \<open>row[i]\<close> and \<open>row[i] = t\<close>. A negative index counts from the end;
  an index out of range raises \<open>IndexError\<close>.
\<close>

definition in_range :: "'a list \<Rightarrow> int \<Rightarrow> bool" where
  "in_range row i = (- int (length row) \<le> i \<and> i < int (length row))"

definition position :: "'a list \<Rightarrow> int \<Rightarrow> nat" where
  "position row i = nat (if i < 0 then int (length row) + i else i)"

definition list_getitem :: "'a list \<Rightarrow> int \<Rightarrow> error + 'a" where
  "list_getitem row i = (if in_range row i then Inr (row ! position row i) else Inl IndexError)"

definition list_setitem :: "'a list \<Rightarrow> int \<Rightarrow> 'a \<Rightarrow> error + 'a list" where
  "list_setitem row i t =
     (if in_range row i then Inr (row[position row i := t]) else Inl IndexError)"

text \<open>
  Strings are read as ASCII: \<open>str.lower\<close> and \<open>str.upper\<close> exchange the letters
  \<open>A\<close> to \<open>Z\<close> with \<open>a\<close> to \<open>z\<close> and leave every other character alone.
\<close>

definition upper_letters :: string where
  "upper_letters = ''ABCDEFGHIJKLMNOPQRSTUVWXYZ''"

definition lower_letters :: string where
  "lower_letters = ''abcdefghijklmnopqrstuvwxyz''"

definition lower_char :: "char \<Rightarrow> char" where
  "lower_char c = (case map_of (zip upper_letters lower_letters) c of None \<Rightarrow> c | Some l \<Rightarrow> l)"

definition upper_char :: "char \<Rightarrow> char" where
  "upper_char c = (case map_of (zip lower_letters upper_letters) c of None \<Rightarrow> c | Some u \<Rightarrow> u)"

definition lower :: "string \<Rightarrow> string" where
  "lower s = map lower_char s"

definition upper :: "string \<Rightarrow> string" where
  "upper s = map upper_char s"

text \<open>\<open>s.split(c)\<close> for a one-character separator: one piece more than separators.\<close>

fun str_split :: "char \<Rightarrow> string \<Rightarrow> string list" where
  "str_split c [] = [[]]"
| "str_split c (x # xs) =
     (if x = c then [] # str_split c xs
      else (case str_split c xs of [] \<Rightarrow> [[x]] | w # ws \<Rightarrow> (x # w) # ws))"

section \<open>The state of a Dictionary\<close>

text \<open>
  The attributes of a \<open>Dictionary\<close> that \<open>get_tuples\<close>, \<open>add_entries\<close> and \<open>tokenize\<close>
  read and write. They are set up by the base class \<open>_QLCParser\<close>, which is not part
  of the sources at hand, so a Dictionary is taken as it comes. The attributes
  \<open>_header\<close>, \<open>_alias\<close>, \<open>_alias2\<close> and \<open>_data\<close> are written \<open>u_header\<close>, \<open>u_alias\<close>,
  \<open>u_alias2\<close> and \<open>u_data\<close>:
  \<^item> \<open>u_header\<close>: every spelling of a column (canonical name and aliases) to its index;
  \<^item> \<open>header\<close>: the canonical names to their index;
  \<^item> \<open>u_alias\<close>: alias to canonical name;
  \<^item> \<open>u_alias2\<close>: canonical name to the list of its aliases;
  \<^item> \<open>entries\<close>: the sorted list of entry names;
  \<^item> \<open>u_data\<close>: row key to row, a list of cell values of type \<open>'v\<close>.
\<close>

record 'v dictionary =
  u_header :: "(string \<times> int) list"
  header :: "(string \<times> int) list"
  u_alias :: "(string \<times> string) list"
  u_alias2 :: "(string \<times> string list) list"
  entries :: "string list"
  u_data :: "(int \<times> 'v list) list"

text \<open>
  The console: the lines \<open>input\<close> will read, and what has been printed. The texts of
  the messages are abstracted to one constructor per \<open>print\<close> or prompt.
\<close>

datatype message = NotSpecified | AlreadyProduced string | Prompt | Aborting

record console =
  stdin :: "string list"
  stdout :: "message list"

definition print :: "message \<Rightarrow> console \<Rightarrow> console" where
  "print m con = con\<lparr>stdout := stdout con @ [m]\<rparr>"

text \<open>
  The \<open>source\<close> argument of \<open>add_entries\<close> is a string (a column name, or several
  joined by commas) or a dict from row keys to values. Row keys are integers, so
  \<open>',' in source\<close> is false for a dict.
\<close>

datatype 'v source = Name string | Mapping "int \<rightharpoonup> 'v"

text \<open>
  The transform \<open>function\<close> is called in three ways: \<open>function(s, idxs)\<close> with a whole
  row and the source indices, \<open>function(s)\<close> with a value of the source dict, and
  \<open>function(s, **keywords)\<close> with one cell. It may raise; it is taken not to modify
  the row it is given.
\<close>

datatype 'v call =
    RowCall "'v list" "int list"
  | ValueCall 'v
  | CellCall 'v "(string \<times> 'v) list"

type_synonym 'v transform = "'v call \<Rightarrow> error + 'v"

text \<open>
  A call of \<open>add_entries\<close> returns \<open>None\<close> or raises; either way the Dictionary and
  the console are left as the call has changed them so far.
\<close>

datatype 'v outcome =
    Returned (final: "'v dictionary") (console_after: console)
  | Raised error (final: "'v dictionary") (console_after: console)

section \<open>get_tuples\<close>

datatype 'v item = Single 'v | Tuple "'v list"

text \<open>\<open>itemgetter(*idxs)(row)\<close>: the first index out of range raises.\<close>

fun itemgetter :: "int list \<Rightarrow> 'a list \<Rightarrow> error + 'a list" where
  "itemgetter [] row = Inr []"
| "itemgetter (i # idxs) row =
     (case list_getitem row i of
        Inl e \<Rightarrow> Inl e
      | Inr v \<Rightarrow> (case itemgetter idxs row of Inl e \<Rightarrow> Inl e | Inr vs \<Rightarrow> Inr (v # vs)))"

text \<open>The loop \<open>for row in self._data.values(): entries.append(f(row))\<close>.\<close>

fun collect :: "('a \<Rightarrow> error + 'b) \<Rightarrow> 'a list \<Rightarrow> error + 'b list" where
  "collect f [] = Inr []"
| "collect f (row # rows) =
     (case f row of
        Inl e \<Rightarrow> Inl e
      | Inr v \<Rightarrow> (case collect f rows of Inl e \<Rightarrow> Inl e | Inr vs \<Rightarrow> Inr (v # vs)))"

definition get_tuples :: "'v dictionary \<Rightarrow> string list \<Rightarrow> error + 'v item list" where
  "get_tuples self columns =
     (let idxs = List.map_filter (map_of (u_header self)) columns
      in if length idxs = 1 then
           collect (\<lambda>row. map_sum id Single (list_getitem row (idxs ! 0))) (map snd (u_data self))
         else if length idxs > 1 then
           collect (\<lambda>row. map_sum id Tuple (itemgetter idxs row)) (map snd (u_data self))
         else Inr [])"

definition get_tuples_default_columns :: "string list" where
  "get_tuples_default_columns = [''head'', ''translation'']"

section \<open>add_entries\<close>

text \<open>
  Modelled from the spec: \<open>for key in self\<close> and \<open>self[key]\<close> belong to \<open>_QLCParser\<close>,
  which is missing; by the spec's RowStore the rows are visited once each, in the
  order of the row store, and \<open>self[key]\<close> is the row stored under \<open>key\<close>. Every loop of
  \<open>add_entries\<close> has the shape
  \<open>for key in self: s = ...; t = function(...); self[key].append(t)\<close> (or
  \<open>self[key][rIdx] = t\<close>); \<open>body key row\<close> is one pass, giving the new row. When a
  pass raises, the rows before it have been changed and the others have not.
\<close>

fun for_rows ::
  "(int \<Rightarrow> 'v list \<Rightarrow> error + 'v list) \<Rightarrow> (int \<times> 'v list) list \<Rightarrow>
     error option \<times> (int \<times> 'v list) list" where
  "for_rows body [] = (None, [])"
| "for_rows body ((key, row) # rest) =
     (case body key row of
        Inl e \<Rightarrow> (Some e, (key, row) # rest)
      | Inr row' \<Rightarrow> (case for_rows body rest of (r, rest') \<Rightarrow> (r, (key, row') # rest')))"

text \<open>
  How the value \<open>t\<close> of one row is computed, by the kind of source (lines 229 to 265,
  and again 276 to 312). The source columns are resolved before the loop starts.
\<close>

definition derive ::
  "'v dictionary \<Rightarrow> 'v source \<Rightarrow> 'v transform \<Rightarrow> (string \<times> 'v) list \<Rightarrow>
     error + (int \<Rightarrow> 'v list \<Rightarrow> error + 'v)" where
  "derive self source function keywords =
     (case source of
        Name s \<Rightarrow>
          if CHR '','' \<in> set s then
            (case getitems (u_header self) (str_split CHR '','' s) of
               Inl e \<Rightarrow> Inl e
             | Inr idxs \<Rightarrow> Inr (\<lambda>key row. function (RowCall row idxs)))
          else
            (case getitem (u_header self) s of
               Inl e \<Rightarrow> Inl e
             | Inr idx \<Rightarrow>
                 Inr (\<lambda>key row. case list_getitem row idx of
                                   Inl e \<Rightarrow> Inl e
                                 | Inr c \<Rightarrow> function (CellCall c keywords)))
      | Mapping m \<Rightarrow>
          Inr (\<lambda>key row. case m key of
                            None \<Rightarrow> Inl KeyError
                          | Some v \<Rightarrow> function (ValueCall v)))"

definition run_rows ::
  "'v dictionary \<Rightarrow> console \<Rightarrow> (int \<Rightarrow> 'v list \<Rightarrow> error + 'v list) \<Rightarrow> 'v outcome" where
  "run_rows self con body =
     (case for_rows body (u_data self) of
        (None, rows) \<Rightarrow> Returned (self\<lparr>u_data := rows\<rparr>) con
      | (Some e, rows) \<Rightarrow> Raised e (self\<lparr>u_data := rows\<rparr>) con)"

text \<open>Lines 208 to 211: a default alias pair for a name without an alias list.\<close>

definition new_alias :: "'v dictionary \<Rightarrow> string \<Rightarrow> 'v dictionary" where
  "new_alias self entry =
     (if \<not> contains (u_alias2 self) (lower entry) then
        self\<lparr>u_alias2 := AList.update (lower entry) [lower entry, upper entry] (u_alias2 self),
             u_alias := AList.update (upper entry) (lower entry)
                          (AList.update (lower entry) (lower entry) (u_alias self))\<rparr>
      else self)"

text \<open>Lines 220 and 221: \<open>for a in self._alias2[name]: self._header[a] = newIdx\<close>.\<close>

definition bind_aliases :: "string list \<Rightarrow> int \<Rightarrow> (string \<times> int) list \<Rightarrow> (string \<times> int) list" where
  "bind_aliases as newIdx h = fold (\<lambda>a. AList.update a newIdx) as h"

text \<open>
  Lines 206 to 226, the first half of the branch \<open>elif not override\<close>: the new column
  is entered into the alias tables, both headers and \<open>entries\<close>. A lookup that
  raises leaves the Dictionary as changed so far (\<open>Inl\<close>, with the exception).
\<close>

definition register :: "'v dictionary \<Rightarrow> string \<Rightarrow> error \<times> 'v dictionary + 'v dictionary" where
  "register self entry =
     (let self1 = new_alias self entry in
      case getitem (u_alias self1) (lower entry) of
        Inl e \<Rightarrow> Inl (e, self1)
      | Inr name \<Rightarrow>
      (case py_max (map snd (u_header self1)) of
        Inl e \<Rightarrow> Inl (e, self1)
      | Inr m \<Rightarrow>
      (let newIdx = m + 1 in
       case getitem (u_alias2 self1) name of
        Inl e \<Rightarrow> Inl (e, self1)
      | Inr as \<Rightarrow>
      (let self2 = self1\<lparr>u_header := bind_aliases as newIdx (u_header self1)\<rparr> in
       case getitem (u_header self2) name of
        Inl e \<Rightarrow> Inl (e, self2)
      | Inr i \<Rightarrow>
      (let self3 = self2\<lparr>header := AList.update name i (header self2)\<rparr> in
       Inr (self3\<lparr>entries := sort (remdups (entries self3 @ [entry]))\<rparr>))))))"

text \<open>
  The branch \<open>elif not override\<close>, lines 204 to 268: the registration, then one new
  cell at the end of every row.
\<close>

definition create ::
  "'v dictionary \<Rightarrow> string \<Rightarrow> 'v source \<Rightarrow> 'v transform \<Rightarrow> (string \<times> 'v) list \<Rightarrow>
     console \<Rightarrow> 'v outcome" where
  "create self entry source function keywords con =
     (case register self entry of
        Inl (e, self') \<Rightarrow> Raised e self' con
      | Inr self' \<Rightarrow>
      (case derive self' source function keywords of
        Inl e \<Rightarrow> Raised e self' con
      | Inr value \<Rightarrow>
          run_rows self' con
            (\<lambda>key row. case value key row of Inl e \<Rightarrow> Inl e | Inr t \<Rightarrow> Inr (row @ [t]))))"

text \<open>The branch \<open>elif override\<close>, lines 270 to 315.\<close>

definition replace ::
  "'v dictionary \<Rightarrow> string \<Rightarrow> 'v source \<Rightarrow> 'v transform \<Rightarrow> (string \<times> 'v) list \<Rightarrow>
     console \<Rightarrow> 'v outcome" where
  "replace self entry source function keywords con =
     (case getitem (u_header self) (lower entry) of
        Inl e \<Rightarrow> Raised e self con
      | Inr rIdx \<Rightarrow>
      (case derive self source function keywords of
        Inl e \<Rightarrow> Raised e self con
      | Inr value \<Rightarrow>
          run_rows self con
            (\<lambda>key row. case value key row of
                         Inl e \<Rightarrow> Inl e
                       | Inr t \<Rightarrow> list_setitem row rIdx t)))"

text \<open>The answers that \<open>add_entries\<close> takes for a yes.\<close>

definition affirmative :: "string \<Rightarrow> bool" where
  "affirmative answer = (lower answer \<in> set [''y'', ''yes'', ''j''])"

text \<open>
  \<open>input(prompt)\<close> prints the prompt, then takes the next line of the input, or
  raises \<open>EOFError\<close> (\<open>None\<close>) when there is none.
\<close>

definition py_input :: "console \<Rightarrow> string option \<times> console" where
  "py_input con =
     (case stdin con of
        [] \<Rightarrow> (None, print Prompt con)
      | answer # rest \<Rightarrow> (Some answer, (print Prompt con)\<lparr>stdin := rest\<rparr>))"

text \<open>
  \<open>add_entries(entry, source, function, override, **keywords)\<close>. The call of line 189
  passes no keywords; the call of line 200 passes them on with \<open>override\<close> set.
\<close>

function add_entries ::
  "'v dictionary \<Rightarrow> string \<Rightarrow> 'v source \<Rightarrow> 'v transform \<Rightarrow> bool \<Rightarrow> (string \<times> 'v) list \<Rightarrow>
     console \<Rightarrow> 'v outcome" where
  "add_entries self entry source function override keywords con =
     (if entry = [] then Returned self (print NotSpecified con)
      else if \<not> contains (header self) entry \<and> override then
        add_entries self entry source function False [] con
      else if contains (u_header self) entry \<and> \<not> override then
        (case py_input (print (AlreadyProduced entry) con) of
           (None, con') \<Rightarrow> Raised EOFError self con'
         | (Some answer, con') \<Rightarrow>
             if affirmative answer then
               add_entries self entry source function True keywords con'
             else Returned self (print Aborting con'))
      else if \<not> override then create self entry source function keywords con
      else replace self entry source function keywords con)"
  by pat_completeness auto
termination
  by (relation "measure (\<lambda>(self, entry, source, function, override, keywords, con).
        2 * length (stdin con) + (if override then 1 else 0))")
     (auto simp: py_input_def print_def split: list.splits)

declare add_entries.simps [simp del]

section \<open>tokenize\<close>

text \<open>
  The cells that \<open>tokenize\<close> reads and writes: a string, or a list of strings.
\<close>

datatype pyval = Str string | StrList "string list"

text \<open>
  The class \<open>Tokenizer\<close> is imported from \<open>lingpy.sequence.tokenizer\<close> and is a
  parameter here: \<open>tokenizer profile\<close> stands for the method \<open>tokenize\<close> of
  \<open>Tokenizer(profile)\<close>, which gives a string or raises. The two lambdas of lines 356
  and 358 take one positional argument and nothing else.
\<close>

definition one_argument :: "(pyval \<Rightarrow> error + pyval) \<Rightarrow> pyval transform" where
  "one_argument f c =
     (case c of
        RowCall row idxs \<Rightarrow> Inl TypeError
      | ValueCall x \<Rightarrow> f x
      | CellCall x keywords \<Rightarrow> if keywords = [] then f x else Inl TypeError)"

definition tokenize_function :: "(pyval \<Rightarrow> error + string) \<Rightarrow> string \<Rightarrow> pyval transform" where
  "tokenize_function t target =
     (if target = ''tokens'' then
        one_argument (\<lambda>x. map_sum id (\<lambda>s. StrList (str_split CHR '' '' s)) (t x))
      else
        one_argument (\<lambda>x. map_sum id Str (t x)))"

definition tokenize ::
  "(string \<Rightarrow> pyval \<Rightarrow> error + string) \<Rightarrow> pyval dictionary \<Rightarrow> string \<Rightarrow> pyval source \<Rightarrow>
     string \<Rightarrow> string \<Rightarrow> (string \<times> pyval) list \<Rightarrow> console \<Rightarrow> pyval outcome" where
  "tokenize tokenizer self orthography_profile source target conversion keywords con =
     add_entries self target source
       (tokenize_function (tokenizer orthography_profile) target) False [] con"

text \<open>The defaults of \<open>tokenize\<close>: \<open>source = "head"\<close>, \<open>target = "tokens"\<close>.\<close>

definition tokenize_default_source :: "pyval source" where
  "tokenize_default_source = Name ''head''"

definition tokenize_default_target :: string where
  "tokenize_default_target = ''tokens''"

section \<open>Invariants of a Dictionary\<close>

text \<open>
  Alias consistency: for every canonical name in \<open>header\<close>, the spellings in its alias
  list \<open>_alias2[name]\<close> are all in \<open>_header\<close>, with one and the same index.
\<close>

definition agree :: "(string \<times> int) list \<Rightarrow> string list \<Rightarrow> bool" where
  "agree h as = (\<forall>a \<in> set as. \<forall>b \<in> set as. map_of h a \<noteq> None \<and> map_of h a = map_of h b)"

definition alias_consistent :: "'v dictionary \<Rightarrow> bool" where
  "alias_consistent self =
     (\<forall>(name, i) \<in> set (header self).
        case map_of (u_alias2 self) name of
          None \<Rightarrow> True
        | Some as \<Rightarrow> agree (u_header self) as)"

text \<open>Row width: every row has as many cells as \<open>header\<close> has canonical names.\<close>

definition column_count :: "'v dictionary \<Rightarrow> nat" where
  "column_count self = length (remdups (map fst (header self)))"

definition row_width :: "'v dictionary \<Rightarrow> bool" where
  "row_width self = (\<forall>(key, row) \<in> set (u_data self). length row = column_count self)"

text \<open>
  What the branch \<open>elif not override\<close> would register for \<open>entry\<close>: the canonical name of
  line 214 and the spellings of line 220 (none when a lookup raises). The entry names
  a new column when that canonical name is not in \<open>header\<close> and none of these
  spellings is in \<open>_header\<close>.
\<close>

definition canonical :: "'v dictionary \<Rightarrow> string \<Rightarrow> error + string" where
  "canonical self entry = getitem (u_alias (new_alias self entry)) (lower entry)"

definition spellings :: "'v dictionary \<Rightarrow> string \<Rightarrow> string list" where
  "spellings self entry =
     (case canonical self entry of
        Inl e \<Rightarrow> []
      | Inr name \<Rightarrow>
          (case getitem (u_alias2 (new_alias self entry)) name of Inl e \<Rightarrow> [] | Inr as \<Rightarrow> as))"

definition unregistered :: "'v dictionary \<Rightarrow> string \<Rightarrow> bool" where
  "unregistered self entry =
     (case canonical self entry of Inl e \<Rightarrow> True | Inr name \<Rightarrow> \<not> contains (header self) name)"

definition unbound :: "'v dictionary \<Rightarrow> string \<Rightarrow> bool" where
  "unbound self entry = (\<forall>a \<in> set (spellings self entry). \<not> contains (u_header self) a)"

section \<open>A small Dictionary\<close>

text \<open>
  Two columns, each with its lower-case and upper-case spelling, and two rows. Strings
  are the cell values.
\<close>

definition sample :: "string dictionary" where
  "sample =
     \<lparr>u_header = [(''head'', 0), (''HEAD'', 0), (''translation'', 1), (''TRANSLATION'', 1)],
      header = [(''head'', 0), (''translation'', 1)],
      u_alias = [(''head'', ''head''), (''HEAD'', ''head''),
                 (''translation'', ''translation''), (''TRANSLATION'', ''translation'')],
      u_alias2 = [(''head'', [''head'', ''HEAD'']),
                  (''translation'', [''translation'', ''TRANSLATION''])],
      entries = [''head'', ''translation''],
      u_data = [(1, [''hand'', ''mano'']), (2, [''foot'', ''pie''])]\<rparr>"

definition quiet :: console where
  "quiet = \<lparr>stdin = [], stdout = []\<rparr>"

text \<open>
  A Dictionary with one column, \<open>kopf\<close>, that has the alias \<open>head\<close>: all four
  spellings are in \<open>_header\<close>, the alias list of \<open>kopf\<close> is \<open>[head, kopf]\<close>.
\<close>

definition kopf :: "string dictionary" where
  "kopf =
     \<lparr>u_header = [(''kopf'', 0), (''KOPF'', 0), (''head'', 0), (''HEAD'', 0)],
      header = [(''kopf'', 0)],
      u_alias = [(''kopf'', ''kopf''), (''KOPF'', ''kopf''), (''head'', ''kopf''),
                 (''HEAD'', ''kopf'')],
      u_alias2 = [(''kopf'', [''head'', ''kopf''])],
      entries = [''kopf''],
      u_data = [(1, [''hand'']), (2, [''fuss''])]\<rparr>"

text \<open>
  The sample once the column \<open>gloss\<close> has been registered, and the values of a source
  dict for its two row keys.
\<close>

definition glossed :: "string dictionary" where
  "glossed =
     \<lparr>u_header = [(''head'', 0), (''HEAD'', 0), (''translation'', 1), (''TRANSLATION'', 1),
                  (''gloss'', 2), (''GLOSS'', 2)],
      header = [(''head'', 0), (''translation'', 1), (''gloss'', 2)],
      u_alias = [(''head'', ''head''), (''HEAD'', ''head''),
                 (''translation'', ''translation''), (''TRANSLATION'', ''translation''),
                 (''gloss'', ''gloss''), (''GLOSS'', ''gloss'')],
      u_alias2 = [(''head'', [''head'', ''HEAD'']),
                  (''translation'', [''translation'', ''TRANSLATION'']),
                  (''gloss'', [''gloss'', ''GLOSS''])],
      entries = [''gloss'', ''head'', ''translation''],
      u_data = [(1, [''hand'', ''mano'']), (2, [''foot'', ''pie''])]\<rparr>"

definition numerals :: "int \<Rightarrow> string" where
  "numerals key = (if key = 1 then ''uno'' else ''dos'')"

fun spaced :: "string \<Rightarrow> string" where
  "spaced [] = []"
| "spaced [c] = [c]"
| "spaced (c # d # cs) = c # CHR '' '' # spaced (d # cs)"

text \<open>
  A tokenizer for any profile: it puts a blank between the characters of a string.
\<close>

definition spell :: "string \<Rightarrow> pyval \<Rightarrow> error + string" where
  "spell profile x = (case x of Str s \<Rightarrow> Inr (spaced s) | StrList ss \<Rightarrow> Inl TypeError)"

text \<open>A Dictionary with one column of strings, and what registering a target makes of it.\<close>

definition words :: "pyval dictionary" where
  "words =
     \<lparr>u_header = [(''head'', 0), (''HEAD'', 0)],
      header = [(''head'', 0)],
      u_alias = [(''head'', ''head''), (''HEAD'', ''head'')],
      u_alias2 = [(''head'', [''head'', ''HEAD''])],
      entries = [''head''],
      u_data = [(1, [Str ''hello'']), (2, [Str ''ab''])]\<rparr>"

definition tokenized :: "string \<Rightarrow> pyval dictionary" where
  "tokenized target =
     \<lparr>u_header = [(''head'', 0), (''HEAD'', 0), (lower target, 1), (upper target, 1)],
      header = [(''head'', 0), (lower target, 1)],
      u_alias = [(''head'', ''head''), (''HEAD'', ''head''), (lower target, lower target),
                 (upper target, lower target)],
      u_alias2 = [(''head'', [''head'', ''HEAD'']), (lower target, [lower target, upper target])],
      entries = sort (remdups [''head'', target]),
      u_data = [(1, [Str ''hello'']), (2, [Str ''ab''])]\<rparr>"

text \<open>
  The sample after \<open>add_entries("Head", "translation", exclaim)\<close>, and the Dictionary
  \<open>kopf\<close> after \<open>add_entries("Head", "kopf", exclaim)\<close>.
\<close>

definition widened :: "string dictionary" where
  "widened =
       \<lparr>u_header = [(''head'', 2), (''HEAD'', 2), (''translation'', 1), (''TRANSLATION'', 1)],
        header = [(''head'', 2), (''translation'', 1)],
        u_alias = [(''head'', ''head''), (''HEAD'', ''head''),
                   (''translation'', ''translation''), (''TRANSLATION'', ''translation'')],
        u_alias2 = [(''head'', [''head'', ''HEAD'']),
                    (''translation'', [''translation'', ''TRANSLATION''])],
        entries = [''Head'', ''head'', ''translation''],
        u_data = [(1, [''hand'', ''mano'', ''mano!'']), (2, [''foot'', ''pie'', ''pie!''])]\<rparr>"

definition parted :: "string dictionary" where
  "parted =
       \<lparr>u_header = [(''kopf'', 0), (''KOPF'', 0), (''head'', 1), (''HEAD'', 1)],
        header = [(''kopf'', 0), (''head'', 1)],
        u_alias = [(''kopf'', ''kopf''), (''KOPF'', ''kopf''), (''head'', ''head''),
                   (''HEAD'', ''head'')],
        u_alias2 = [(''kopf'', [''head'', ''kopf'']), (''head'', [''head'', ''HEAD''])],
        entries = [''Head'', ''kopf''],
        u_data = [(1, [''hand'', ''hand!'']), (2, [''fuss'', ''fuss!''])]\<rparr>"

text \<open>The sample after \<open>add_entries("tokens", "head", exclaim)\<close>.\<close>

definition extended :: "string dictionary" where
  "extended =
       \<lparr>u_header = [(''head'', 0), (''HEAD'', 0), (''translation'', 1), (''TRANSLATION'', 1),
                    (''tokens'', 2), (''TOKENS'', 2)],
        header = [(''head'', 0), (''translation'', 1), (''tokens'', 2)],
        u_alias = [(''head'', ''head''), (''HEAD'', ''head''),
                   (''translation'', ''translation''), (''TRANSLATION'', ''translation''),
                   (''tokens'', ''tokens''), (''TOKENS'', ''tokens'')],
        u_alias2 = [(''head'', [''head'', ''HEAD'']),
                    (''translation'', [''translation'', ''TRANSLATION'']),
                    (''tokens'', [''tokens'', ''TOKENS''])],
        entries = [''head'', ''tokens'', ''translation''],
        u_data = [(1, [''hand'', ''mano'', ''hand!'']), (2, [''foot'', ''pie'', ''foot!''])]\<rparr>"

text \<open>Consoles with one line to read.\<close>

definition yes :: console where
  "yes = \<lparr>stdin = [''Y''], stdout = []\<rparr>"

definition no :: console where
  "no = \<lparr>stdin = [''n''], stdout = []\<rparr>"

text \<open>
  A transform for every kind of call: it joins the cells of a row, or puts a mark
  and the values of the keywords behind the one value it is given.
\<close>

definition exclaim :: "string transform" where
  "exclaim c =
     (case c of
        RowCall row idxs \<Rightarrow> Inr (concat row)
      | ValueCall v \<Rightarrow> Inr (v @ ''?'')
      | CellCall v keywords \<Rightarrow> Inr (v @ ''!'' @ concat (map snd keywords)))"

section \<open>Properties of get_tuples\<close>

lemma collect_all:
  "(\<And>x. x \<in> set xs \<Longrightarrow> f x = Inr (g x)) \<Longrightarrow> collect f xs = Inr (map g xs)"
  by (induction xs) auto

lemma itemgetter_all:
  "(\<And>i. i \<in> set idxs \<Longrightarrow> in_range row i) \<Longrightarrow>
   itemgetter idxs row = Inr (map (\<lambda>i. row ! position row i) idxs)"
  by (induction idxs) (auto simp: list_getitem_def)

lemma get_tuples_one:
  assumes "List.map_filter (map_of (u_header self)) columns = [i]"
    and "\<And>row. row \<in> set (map snd (u_data self)) \<Longrightarrow> in_range row i"
  shows "get_tuples self columns =
           Inr (map (\<lambda>row. Single (row ! position row i)) (map snd (u_data self)))"
proof -
  have "collect (\<lambda>row. map_sum id Single (list_getitem row i)) (map snd (u_data self)) =
          Inr (map (\<lambda>row. Single (row ! position row i)) (map snd (u_data self)))"
    by (rule collect_all) (simp add: list_getitem_def assms(2))
  with assms(1) show ?thesis by (simp add: get_tuples_def)
qed

lemma get_tuples_many:
  assumes "List.map_filter (map_of (u_header self)) columns = idxs" and "length idxs > 1"
    and "\<And>row i. row \<in> set (map snd (u_data self)) \<Longrightarrow> i \<in> set idxs \<Longrightarrow> in_range row i"
  shows "get_tuples self columns =
           Inr (map (\<lambda>row. Tuple (map (\<lambda>i. row ! position row i) idxs)) (map snd (u_data self)))"
proof -
  have "collect (\<lambda>row. map_sum id Tuple (itemgetter idxs row)) (map snd (u_data self)) =
          Inr (map (\<lambda>row. Tuple (map (\<lambda>i. row ! position row i) idxs)) (map snd (u_data self)))"
    by (rule collect_all) (simp add: itemgetter_all assms(3))
  with assms(1,2) show ?thesis by (simp add: get_tuples_def)
qed

lemma pair_rows:
  "map (\<lambda>row. Tuple [f row, g row]) rows =
     map (\<lambda>(h, t). Tuple [h, t]) (zip (map f rows) (map g rows))"
  by (induction rows) simp_all

text \<open>
  C8. In a Dictionary where \<open>head\<close> and \<open>translation\<close> are in the header and every
  row has a cell at both indices, \<open>get_tuples(["head"])\<close> and
  \<open>get_tuples(["translation"])\<close> give one value per row, in the order of the rows, and
  \<open>get_tuples(["head", "translation"])\<close> gives at each position the pair of the two
  values at that position.
\<close>

theorem get_tuples_alignment:
  assumes head: "map_of (u_header self) ''head'' = Some ih"
    and translation: "map_of (u_header self) ''translation'' = Some it"
    and rows: "\<forall>(key, row) \<in> set (u_data self). in_range row ih \<and> in_range row it"
  shows "\<exists>hs ts.
     get_tuples self [''head''] = Inr (map Single hs) \<and>
     get_tuples self [''translation''] = Inr (map Single ts) \<and>
     get_tuples self [''head'', ''translation''] = Inr (map (\<lambda>(h, t). Tuple [h, t]) (zip hs ts)) \<and>
     length hs = length (u_data self) \<and> length ts = length (u_data self) \<and>
     (\<forall>i < length (u_data self).
        list_getitem (snd (u_data self ! i)) ih = Inr (hs ! i) \<and>
        list_getitem (snd (u_data self ! i)) it = Inr (ts ! i))"
proof -
  let ?rows = "map snd (u_data self)"
  let ?hs = "map (\<lambda>row. row ! position row ih) ?rows"
  let ?ts = "map (\<lambda>row. row ! position row it) ?rows"
  have inr: "\<And>row. row \<in> set ?rows \<Longrightarrow> in_range row ih \<and> in_range row it"
    using rows by auto
  have "get_tuples self [''head''] = Inr (map (\<lambda>row. Single (row ! position row ih)) ?rows)"
    by (rule get_tuples_one) (simp_all add: List.map_filter_def head inr)
  then have h: "get_tuples self [''head''] = Inr (map Single ?hs)"
    by (simp add: comp_def)
  have "get_tuples self [''translation''] = Inr (map (\<lambda>row. Single (row ! position row it)) ?rows)"
    by (rule get_tuples_one) (simp_all add: List.map_filter_def translation inr)
  then have t: "get_tuples self [''translation''] = Inr (map Single ?ts)"
    by (simp add: comp_def)
  have "get_tuples self [''head'', ''translation''] =
          Inr (map (\<lambda>row. Tuple (map (\<lambda>i. row ! position row i) [ih, it])) ?rows)"
    using rows by (intro get_tuples_many) (auto simp: List.map_filter_def head translation)
  moreover have "map (\<lambda>row. Tuple (map (\<lambda>i. row ! position row i) [ih, it])) ?rows =
          map (\<lambda>(h, t). Tuple [h, t]) (zip ?hs ?ts)"
    by (simp add: pair_rows)
  ultimately have p: "get_tuples self [''head'', ''translation''] =
          Inr (map (\<lambda>(h, t). Tuple [h, t]) (zip ?hs ?ts))"
    by simp
  have g: "\<forall>i < length (u_data self).
        list_getitem (snd (u_data self ! i)) ih = Inr (?hs ! i) \<and>
        list_getitem (snd (u_data self ! i)) it = Inr (?ts ! i)"
    using inr by (auto simp: list_getitem_def)
  show ?thesis
    using h t p g by (intro exI [of _ ?hs] exI [of _ ?ts]) simp
qed

theorem get_tuples_alignment_witness:
  "map_of (u_header sample) ''head'' = Some 0 \<and>
   map_of (u_header sample) ''translation'' = Some 1 \<and>
   list_all (\<lambda>(key, row). in_range row 0 \<and> in_range row 1) (u_data sample) \<and>
   (\<exists>hs ts.
     get_tuples sample [''head''] = Inr (map Single hs) \<and>
     get_tuples sample [''translation''] = Inr (map Single ts) \<and>
     get_tuples sample [''head'', ''translation''] = Inr (map (\<lambda>(h, t). Tuple [h, t]) (zip hs ts)) \<and>
     length hs = length (u_data sample) \<and> length ts = length (u_data sample) \<and>
     (\<forall>i < length (u_data sample).
        list_getitem (snd (u_data sample ! i)) 0 = Inr (hs ! i) \<and>
        list_getitem (snd (u_data sample ! i)) 1 = Inr (ts ! i)))"
proof -
  have 1: "map_of (u_header sample) ''head'' = Some 0"
    by (simp add: sample_def)
  have 2: "map_of (u_header sample) ''translation'' = Some 1"
    by (simp add: sample_def)
  have 3: "\<forall>(key, row) \<in> set (u_data sample). in_range row 0 \<and> in_range row 1"
    by (simp add: sample_def in_range_def)
  have 4: "list_all (\<lambda>(key, row). in_range row 0 \<and> in_range row 1) (u_data sample)"
    by (simp add: sample_def in_range_def)
  show ?thesis
    using get_tuples_alignment [OF 1 2 3] 1 2 4 by blast
qed

text \<open>
  C10. When exactly one of the requested names is in the header, at index \<open>i\<close>, and
  every row has a cell at \<open>i\<close>, \<open>get_tuples\<close> gives the bare values of that column,
  however many names were requested; when none of the requested names is in the
  header it gives the empty list and raises nothing.
\<close>

theorem get_tuples_one_present:
  "(filter (contains (u_header self)) columns = [c] \<and> map_of (u_header self) c = Some i \<and>
    (\<forall>(key, row) \<in> set (u_data self). in_range row i) \<longrightarrow>
      get_tuples self columns =
        Inr (map (\<lambda>(key, row). Single (row ! position row i)) (u_data self))) \<and>
   (filter (contains (u_header self)) columns = [] \<longrightarrow> get_tuples self columns = Inr [])"
proof (intro conjI impI)
  assume a: "filter (contains (u_header self)) columns = [c] \<and> map_of (u_header self) c = Some i \<and>
    (\<forall>(key, row) \<in> set (u_data self). in_range row i)"
  have "filter (\<lambda>x. map_of (u_header self) x \<noteq> None) columns = [c]"
    using a by (simp add: contains_def [abs_def])
  then have "List.map_filter (map_of (u_header self)) columns = [i]"
    using a by (simp add: List.map_filter_def)
  then have "get_tuples self columns =
           Inr (map (\<lambda>row. Single (row ! position row i)) (map snd (u_data self)))"
    using a by (intro get_tuples_one) auto
  then show "get_tuples self columns =
        Inr (map (\<lambda>(key, row). Single (row ! position row i)) (u_data self))"
    by (simp add: comp_def case_prod_unfold)
next
  assume "filter (contains (u_header self)) columns = []"
  then have "filter (\<lambda>x. map_of (u_header self) x \<noteq> None) columns = []"
    by (simp add: contains_def [abs_def])
  then have "List.map_filter (map_of (u_header self)) columns = []"
    by (simp add: List.map_filter_def)
  then show "get_tuples self columns = Inr []"
    by (simp add: get_tuples_def)
qed

theorem get_tuples_one_present_witness:
  "filter (contains (u_header sample)) [''gloss'', ''translation'', ''pos''] = [''translation''] \<and>
   map_of (u_header sample) ''translation'' = Some 1 \<and>
   list_all (\<lambda>(key, row). in_range row 1) (u_data sample) \<and>
   get_tuples sample [''gloss'', ''translation'', ''pos''] = Inr [Single ''mano'', Single ''pie''] \<and>
   filter (contains (u_header sample)) [''gloss'', ''pos''] = [] \<and>
   get_tuples sample [''gloss'', ''pos''] = Inr []"
proof -
  have 1: "filter (contains (u_header sample)) [''gloss'', ''translation'', ''pos''] = [''translation''] \<and>
    map_of (u_header sample) ''translation'' = Some 1 \<and>
    (\<forall>(key, row) \<in> set (u_data sample). in_range row 1)"
    by (simp add: sample_def contains_def in_range_def)
  have 2: "filter (contains (u_header sample)) [''gloss'', ''pos''] = []"
    by (simp add: sample_def contains_def)
  from get_tuples_one_present [of sample "[''gloss'', ''translation'', ''pos'']" "''translation''" 1] 1
  have 3: "get_tuples sample [''gloss'', ''translation'', ''pos''] =
             Inr (map (\<lambda>(key, row). Single (row ! position row 1)) (u_data sample))"
    by blast
  from get_tuples_one_present [of sample "[''gloss'', ''pos'']"] 2
  have 4: "get_tuples sample [''gloss'', ''pos''] = Inr []"
    by blast
  from 3 have 5: "get_tuples sample [''gloss'', ''translation'', ''pos''] =
                    Inr [Single ''mano'', Single ''pie'']"
    by (simp add: sample_def position_def)
  have 6: "list_all (\<lambda>(key, row). in_range row 1) (u_data sample)"
    by (simp add: sample_def in_range_def)
  show ?thesis using 1 2 4 5 6 by blast
qed

section \<open>The paths through add_entries\<close>

lemma add_entries_empty:
  "add_entries self [] source fn override kw con = Returned self (print NotSpecified con)"
  by (subst add_entries.simps) simp

lemma add_entries_retry:
  assumes "\<not> contains (header self) entry"
  shows "add_entries self entry source fn True kw con =
     add_entries self entry source fn False [] con"
proof (cases "entry = []")
  case True
  then show ?thesis by (simp add: add_entries_empty)
next
  case False
  with assms show ?thesis by (subst add_entries.simps) simp
qed

lemma add_entries_create:
  "entry \<noteq> [] \<Longrightarrow> \<not> contains (u_header self) entry \<Longrightarrow>
   add_entries self entry source fn False kw con = create self entry source fn kw con"
  by (subst add_entries.simps) simp

lemma add_entries_replace:
  "entry \<noteq> [] \<Longrightarrow> contains (header self) entry \<Longrightarrow>
   add_entries self entry source fn True kw con = replace self entry source fn kw con"
  by (subst add_entries.simps) simp

lemma add_entries_conflict:
  "entry \<noteq> [] \<Longrightarrow> contains (u_header self) entry \<Longrightarrow>
   add_entries self entry source fn False kw con =
     (case py_input (print (AlreadyProduced entry) con) of
        (None, con') \<Rightarrow> Raised EOFError self con'
      | (Some answer, con') \<Rightarrow>
          if affirmative answer then add_entries self entry source fn True kw con'
          else Returned self (print Aborting con'))"
  by (subst add_entries.simps) simp

lemma add_entries_outcome:
  "final (add_entries self entry source fn override kw con) = self \<or>
   (\<exists>kw' con'. entry \<noteq> [] \<and> \<not> contains (u_header self) entry \<and>
      add_entries self entry source fn override kw con = create self entry source fn kw' con') \<or>
   (\<exists>kw' con'. entry \<noteq> [] \<and> contains (header self) entry \<and>
      add_entries self entry source fn override kw con = replace self entry source fn kw' con')"
proof (induction self entry source fn override kw con rule: add_entries.induct)
  case (1 self entry source fn override kw con)
  show ?case
  proof (cases "entry = []")
    case True
    then show ?thesis by (simp add: add_entries_empty)
  next
    case ne: False
    show ?thesis
    proof (cases "\<not> contains (header self) entry \<and> override")
      case True
      then have "add_entries self entry source fn override kw con =
                 add_entries self entry source fn False [] con"
        using add_entries_retry by auto
      with 1(1) [OF ne True] show ?thesis by metis
    next
      case nr: False
      show ?thesis
      proof (cases "contains (u_header self) entry \<and> \<not> override")
        case True
        obtain answer con' where inp: "py_input (print (AlreadyProduced entry) con) = (answer, con')"
          by (cases "py_input (print (AlreadyProduced entry) con)")
        show ?thesis
        proof (cases answer)
          case None
          with True ne inp show ?thesis by (simp add: add_entries_conflict)
        next
          case (Some a)
          show ?thesis
          proof (cases "affirmative a")
            case yes: True
            have "add_entries self entry source fn override kw con =
                  add_entries self entry source fn True kw con'"
              using True ne inp Some yes by (simp add: add_entries_conflict)
            with 1(2) [OF ne nr True inp [symmetric] Some yes] show ?thesis by metis
          next
            case False
            with True ne inp Some show ?thesis by (simp add: add_entries_conflict)
          qed
        qed
      next
        case nc: False
        show ?thesis
        proof (cases override)
          case True
          with nr have "contains (header self) entry" by simp
          with ne True show ?thesis
            by (auto simp: add_entries_replace)
        next
          case False
          with nc have "\<not> contains (u_header self) entry" by simp
          with ne False show ?thesis
            by (auto simp: add_entries_create)
        qed
      qed
    qed
  qed
qed

section \<open>The row loop\<close>

lemma for_rows_all:
  assumes "\<And>key row. (key, row) \<in> set rows \<Longrightarrow> body key row = Inr (g key row)"
  shows "for_rows body rows = (None, map (\<lambda>(key, row). (key, g key row)) rows)"
  using assms by (induction rows) auto

lemma for_rows_None:
  "for_rows body rows = (None, rows') \<Longrightarrow>
   list_all2 (\<lambda>(key, row) (key', row'). key' = key \<and> body key row = Inr row') rows rows'"
proof (induction rows arbitrary: rows')
  case Nil
  then show ?case by simp
next
  case (Cons p rows)
  obtain key row where p: "p = (key, row)" by (cases p)
  from Cons.prems p obtain new rest where
    new: "body key row = Inr new" and rest: "for_rows body rows = (None, rest)"
    and rows': "rows' = (key, new) # rest"
    by (auto split: sum.splits prod.splits)
  from Cons.IH [OF rest] new rows' p show ?case by simp
qed

lemma for_rows_stop:
  assumes "\<And>k r. (k, r) \<in> set pre \<Longrightarrow> body k r = Inr (g k r)"
    and "body key row = Inl e"
  shows "for_rows body (pre @ (key, row) # post) =
           (Some e, map (\<lambda>(k, r). (k, g k r)) pre @ (key, row) # post)"
  using assms by (induction pre) auto

lemma for_rows_Some:
  "for_rows body rows = (Some e, rows') \<Longrightarrow>
   \<exists>pre key row post pre'. rows = pre @ (key, row) # post \<and> rows' = pre' @ (key, row) # post \<and>
      body key row = Inl e \<and>
      list_all2 (\<lambda>(k, r) (k', r'). k' = k \<and> body k r = Inr r') pre pre'"
proof (induction rows arbitrary: rows')
  case Nil
  then show ?case by simp
next
  case (Cons p rows)
  obtain key row where p: "p = (key, row)" by (cases p)
  show ?case
  proof (cases "body key row")
    case (Inl e')
    with Cons.prems p have "e' = e" "rows' = (key, row) # rows" by auto
    with Inl p show ?thesis
      by (intro exI [of _ "[]"] exI [of _ key] exI [of _ row] exI [of _ rows]) simp
  next
    case (Inr new)
    with Cons.prems p obtain rest where
      rest: "for_rows body rows = (Some e, rest)" and rows': "rows' = (key, new) # rest"
      by (auto split: prod.splits)
    from Cons.IH [OF rest] obtain pre k r post pre' where
      h: "rows = pre @ (k, r) # post" "rest = pre' @ (k, r) # post" "body k r = Inl e"
         "list_all2 (\<lambda>(k, r) (k', r'). k' = k \<and> body k r = Inr r') pre pre'"
      by blast
    show ?thesis
      using h Inr p rows'
      by (intro exI [of _ "(key, row) # pre"] exI [of _ k] exI [of _ r] exI [of _ post]
            exI [of _ "(key, new) # pre'"]) simp
  qed
qed

lemma run_rows_final:
  "final (run_rows self con body) = self\<lparr>u_data := snd (for_rows body (u_data self))\<rparr>"
  by (simp add: run_rows_def split: prod.splits option.splits)

lemma run_rows_console: "console_after (run_rows self con body) = con"
  by (simp add: run_rows_def split: prod.splits option.splits)

lemma run_rows_Returned:
  "run_rows self con body = Returned self' con' \<longleftrightarrow>
     (\<exists>rows. for_rows body (u_data self) = (None, rows) \<and> self' = self\<lparr>u_data := rows\<rparr> \<and> con' = con)"
  by (auto simp: run_rows_def split: prod.splits option.splits)

lemma run_rows_Raised:
  "run_rows self con body = Raised e self' con' \<longleftrightarrow>
     (\<exists>rows. for_rows body (u_data self) = (Some e, rows) \<and> self' = self\<lparr>u_data := rows\<rparr> \<and> con' = con)"
  by (auto simp: run_rows_def split: prod.splits option.splits)

section \<open>The branch that replaces a column\<close>

lemma replace_final:
  "\<exists>rows. final (replace self entry source fn kw con) = self\<lparr>u_data := rows\<rparr>"
proof (cases "getitem (u_header self) (lower entry)")
  case (Inl e)
  then have "final (replace self entry source fn kw con) = self\<lparr>u_data := u_data self\<rparr>"
    by (simp add: replace_def)
  then show ?thesis ..
next
  case rIdx: (Inr rIdx)
  show ?thesis
  proof (cases "derive self source fn kw")
    case (Inl e)
    with rIdx have "final (replace self entry source fn kw con) = self\<lparr>u_data := u_data self\<rparr>"
      by (simp add: replace_def)
    then show ?thesis ..
  next
    case (Inr v)
    with rIdx show ?thesis
      by (auto simp: replace_def run_rows_final)
  qed
qed

lemma replace_console: "console_after (replace self entry source fn kw con) = con"
  by (simp add: replace_def run_rows_console split: sum.splits)

lemma replace_Returned:
  assumes "replace self entry source fn kw con = Returned self' con'"
  shows "\<exists>rIdx v rows. getitem (u_header self) (lower entry) = Inr rIdx \<and>
      derive self source fn kw = Inr v \<and>
      for_rows (\<lambda>key row. case v key row of Inl e \<Rightarrow> Inl e | Inr t \<Rightarrow> list_setitem row rIdx t)
        (u_data self) = (None, rows) \<and>
      self' = self\<lparr>u_data := rows\<rparr> \<and> con' = con"
  using assms by (auto simp: replace_def run_rows_Returned split: sum.splits)

lemma replace_all:
  assumes "getitem (u_header self) (lower entry) = Inr rIdx"
    and "derive self source fn kw = Inr v"
    and "\<And>key row. (key, row) \<in> set (u_data self) \<Longrightarrow>
           in_range row rIdx \<and> v key row = Inr (g key row)"
  shows "replace self entry source fn kw con =
     Returned (self\<lparr>u_data := map (\<lambda>(key, row). (key, row[position row rIdx := g key row]))
                                 (u_data self)\<rparr>) con"
proof -
  have "for_rows (\<lambda>key row. case v key row of Inl e \<Rightarrow> Inl e | Inr t \<Rightarrow> list_setitem row rIdx t)
          (u_data self) =
        (None, map (\<lambda>(key, row). (key, row[position row rIdx := g key row])) (u_data self))"
    by (rule for_rows_all) (simp add: assms(3) list_setitem_def)
  with assms(1,2) show ?thesis
    by (simp add: replace_def run_rows_def)
qed

lemmas eval_defs = sample_def quiet_def exclaim_def contains_def create_def register_def
  new_alias_def lower_def upper_def lower_char_def upper_char_def upper_letters_def
  lower_letters_def getitem_def bind_aliases_def derive_def run_rows_def list_getitem_def
  in_range_def position_def list_setitem_def replace_def print_def affirmative_def py_input_def

text \<open>
  The override path for a canonical name. For an entry that is a key of \<open>header\<close>,
  \<open>add_entries\<close> with \<open>override = True\<close> leaves \<open>_header\<close>, \<open>header\<close>, \<open>_alias\<close>,
  \<open>_alias2\<close> and \<open>entries\<close> as they were, whether it returns or raises. When it
  returns, every row has the value derived for it written at the index
  \<open>_header[entry.lower()]\<close> and is otherwise as before; and it does return when that
  index is in the header, the source can be resolved, every row has a cell at the
  index and the transform gives a value for every row.
\<close>

lemma override_canonical:
  assumes "entry \<noteq> []" and "contains (header self) entry"
  shows "u_header (final (add_entries self entry source fn True kw con)) = u_header self \<and>
     header (final (add_entries self entry source fn True kw con)) = header self \<and>
     u_alias (final (add_entries self entry source fn True kw con)) = u_alias self \<and>
     u_alias2 (final (add_entries self entry source fn True kw con)) = u_alias2 self \<and>
     entries (final (add_entries self entry source fn True kw con)) = entries self \<and>
     (\<forall>self' con'. add_entries self entry source fn True kw con = Returned self' con' \<longrightarrow>
        (\<exists>rIdx v. getitem (u_header self) (lower entry) = Inr rIdx \<and>
           derive self source fn kw = Inr v \<and>
           list_all2 (\<lambda>(key, row) (key', row'). key' = key \<and>
                (\<exists>t. v key row = Inr t \<and> list_setitem row rIdx t = Inr row'))
             (u_data self) (u_data self'))) \<and>
     (\<forall>rIdx v g. getitem (u_header self) (lower entry) = Inr rIdx \<and>
           derive self source fn kw = Inr v \<and>
           (\<forall>(key, row) \<in> set (u_data self). in_range row rIdx \<and> v key row = Inr (g key row)) \<longrightarrow>
        add_entries self entry source fn True kw con =
          Returned (self\<lparr>u_data := map (\<lambda>(key, row). (key, row[position row rIdx := g key row]))
                                      (u_data self)\<rparr>) con)"
proof -
  let ?r = "add_entries self entry source fn True kw con"
  have r: "?r = replace self entry source fn kw con"
    using assms by (rule add_entries_replace)
  obtain rows where rows: "final ?r = self\<lparr>u_data := rows\<rparr>"
    using replace_final [of self entry source fn kw con] r by auto
  have frame: "u_header (final ?r) = u_header self \<and> header (final ?r) = header self \<and>
     u_alias (final ?r) = u_alias self \<and> u_alias2 (final ?r) = u_alias2 self \<and>
     entries (final ?r) = entries self"
    by (simp add: rows)
  have written: "\<exists>rIdx v. getitem (u_header self) (lower entry) = Inr rIdx \<and>
           derive self source fn kw = Inr v \<and>
           list_all2 (\<lambda>(key, row) (key', row'). key' = key \<and>
                (\<exists>t. v key row = Inr t \<and> list_setitem row rIdx t = Inr row'))
             (u_data self) (u_data self')"
    if "?r = Returned self' con'" for self' con'
  proof -
    from that r replace_Returned [of self entry source fn kw con self' con']
    obtain rIdx v rows' where
      h: "getitem (u_header self) (lower entry) = Inr rIdx" "derive self source fn kw = Inr v"
        "for_rows (\<lambda>key row. case v key row of Inl e \<Rightarrow> Inl e | Inr t \<Rightarrow> list_setitem row rIdx t)
           (u_data self) = (None, rows')"
        "self' = self\<lparr>u_data := rows'\<rparr>"
      by auto
    have "list_all2 (\<lambda>(key, row) (key', row'). key' = key \<and>
            (case v key row of Inl e \<Rightarrow> Inl e | Inr t \<Rightarrow> list_setitem row rIdx t) = Inr row')
          (u_data self) rows'"
      using for_rows_None [OF h(3)] .
    then have "list_all2 (\<lambda>(key, row) (key', row'). key' = key \<and>
                (\<exists>t. v key row = Inr t \<and> list_setitem row rIdx t = Inr row'))
             (u_data self) rows'"
      by (rule list_all2_mono) (auto split: sum.splits)
    with h show ?thesis by auto
  qed
  have total: "?r = Returned (self\<lparr>u_data := map (\<lambda>(key, row). (key, row[position row rIdx := g key row]))
                                      (u_data self)\<rparr>) con"
    if "getitem (u_header self) (lower entry) = Inr rIdx \<and>
           derive self source fn kw = Inr v \<and>
           (\<forall>(key, row) \<in> set (u_data self). in_range row rIdx \<and> v key row = Inr (g key row))"
    for rIdx v g
    unfolding r using that by (intro replace_all) auto
  show ?thesis
    using frame written total by blast
qed

lemma add_entries_known:
  assumes "contains (u_header self) entry"
  shows "\<exists>rows. final (add_entries self entry source fn override kw con) = self\<lparr>u_data := rows\<rparr>"
proof -
  consider "final (add_entries self entry source fn override kw con) = self"
    | kw' con' where "add_entries self entry source fn override kw con =
        replace self entry source fn kw' con'"
    using add_entries_outcome [of self entry source fn override kw con] assms by blast
  then show ?thesis
  proof cases
    case 1
    then have "final (add_entries self entry source fn override kw con) = self\<lparr>u_data := u_data self\<rparr>"
      by simp
    then show ?thesis ..
  next
    case 2
    then show ?thesis using replace_final [of self entry source fn kw' con'] by simp
  qed
qed

text \<open>
  C4, as the code has it. For an entry whose spelling is in \<open>_header\<close>, \<open>add_entries\<close>
  with \<open>override = False\<close> prints its notice and asks on the console. With no line to
  read it raises \<open>EOFError\<close>; with an answer other than \<open>y\<close>, \<open>yes\<close> or \<open>j\<close> it prints
  that it aborts and returns; in both cases the Dictionary is untouched. With one of
  these answers it goes on as the call with \<open>override = True\<close> on the rest of the
  input. Whatever \<open>override\<close> is and whatever is answered, \<open>_header\<close>, \<open>header\<close>,
  \<open>_alias\<close>, \<open>_alias2\<close> and \<open>entries\<close> are the same after the call, so the column keeps
  its index. For a canonical name in \<open>header\<close> the call with \<open>override = True\<close> returns
  with every row rewritten, when the index and the source can be resolved, every row
  has a cell at the index and the transform gives a value for every row.
\<close>

theorem conflict_asks:
  assumes "entry \<noteq> []" and "contains (u_header self) entry"
  shows "(stdin con = [] \<longrightarrow>
        add_entries self entry source fn False kw con =
          Raised EOFError self (print Prompt (print (AlreadyProduced entry) con))) \<and>
     (\<forall>answer rest. stdin con = answer # rest \<and> \<not> affirmative answer \<longrightarrow>
        add_entries self entry source fn False kw con =
          Returned self
            (print Aborting ((print Prompt (print (AlreadyProduced entry) con))\<lparr>stdin := rest\<rparr>))) \<and>
     (\<forall>answer rest. stdin con = answer # rest \<and> affirmative answer \<longrightarrow>
        add_entries self entry source fn False kw con =
          add_entries self entry source fn True kw
            ((print Prompt (print (AlreadyProduced entry) con))\<lparr>stdin := rest\<rparr>)) \<and>
     (\<forall>override con'.
        u_header (final (add_entries self entry source fn override kw con')) = u_header self \<and>
        header (final (add_entries self entry source fn override kw con')) = header self \<and>
        u_alias (final (add_entries self entry source fn override kw con')) = u_alias self \<and>
        u_alias2 (final (add_entries self entry source fn override kw con')) = u_alias2 self \<and>
        entries (final (add_entries self entry source fn override kw con')) = entries self) \<and>
     (\<forall>rIdx v g con'. contains (header self) entry \<and>
        getitem (u_header self) (lower entry) = Inr rIdx \<and>
        derive self source fn kw = Inr v \<and>
        (\<forall>(key, row) \<in> set (u_data self). in_range row rIdx \<and> v key row = Inr (g key row)) \<longrightarrow>
        add_entries self entry source fn True kw con' =
          Returned (self\<lparr>u_data := map (\<lambda>(key, row). (key, row[position row rIdx := g key row]))
                                      (u_data self)\<rparr>) con')"
proof -
  note c = add_entries_conflict [OF assms, of source fn kw con]
  have a: "stdin con = [] \<longrightarrow>
        add_entries self entry source fn False kw con =
          Raised EOFError self (print Prompt (print (AlreadyProduced entry) con))"
    by (simp add: c py_input_def print_def)
  have b: "add_entries self entry source fn False kw con =
          Returned self
            (print Aborting ((print Prompt (print (AlreadyProduced entry) con))\<lparr>stdin := rest\<rparr>))"
    if "stdin con = answer # rest \<and> \<not> affirmative answer" for answer rest
    using that by (simp add: c py_input_def print_def)
  have y: "add_entries self entry source fn False kw con =
          add_entries self entry source fn True kw
            ((print Prompt (print (AlreadyProduced entry) con))\<lparr>stdin := rest\<rparr>)"
    if "stdin con = answer # rest \<and> affirmative answer" for answer rest
    using that by (simp add: c py_input_def print_def)
  have d: "u_header (final (add_entries self entry source fn override kw con')) = u_header self \<and>
        header (final (add_entries self entry source fn override kw con')) = header self \<and>
        u_alias (final (add_entries self entry source fn override kw con')) = u_alias self \<and>
        u_alias2 (final (add_entries self entry source fn override kw con')) = u_alias2 self \<and>
        entries (final (add_entries self entry source fn override kw con')) = entries self"
    for override con'
  proof -
    obtain rows where "final (add_entries self entry source fn override kw con') = self\<lparr>u_data := rows\<rparr>"
      using add_entries_known [OF assms(2)] by blast
    then show ?thesis by simp
  qed
  have e: "add_entries self entry source fn True kw con' =
          Returned (self\<lparr>u_data := map (\<lambda>(key, row). (key, row[position row rIdx := g key row]))
                                      (u_data self)\<rparr>) con'"
    if "contains (header self) entry \<and>
        getitem (u_header self) (lower entry) = Inr rIdx \<and>
        derive self source fn kw = Inr v \<and>
        (\<forall>(key, row) \<in> set (u_data self). in_range row rIdx \<and> v key row = Inr (g key row))"
    for rIdx v g con'
  proof -
    have "add_entries self entry source fn True kw con' = replace self entry source fn kw con'"
      using assms(1) that by (intro add_entries_replace) auto
    then show ?thesis
      using that by (simp only:) (intro replace_all, auto)
  qed
  show ?thesis
    using a b y d e by blast
qed

theorem conflict_asks_witness:
  "''translation'' \<noteq> [] \<and> contains (u_header sample) ''translation'' \<and>
   stdin quiet = [] \<and>
   add_entries sample ''translation'' (Name ''head'') exclaim False [] quiet =
     Raised EOFError sample \<lparr>stdin = [], stdout = [AlreadyProduced ''translation'', Prompt]\<rparr> \<and>
   stdin no = [''n''] \<and> \<not> affirmative ''n'' \<and>
   add_entries sample ''translation'' (Name ''head'') exclaim False [] no =
     Returned sample \<lparr>stdin = [], stdout = [AlreadyProduced ''translation'', Prompt, Aborting]\<rparr> \<and>
   stdin yes = [''Y''] \<and> affirmative ''Y'' \<and>
   add_entries sample ''translation'' (Name ''head'') exclaim False [] yes =
     Returned (sample\<lparr>u_data := [(1, [''hand'', ''hand!'']), (2, [''foot'', ''foot!''])]\<rparr>)
       \<lparr>stdin = [], stdout = [AlreadyProduced ''translation'', Prompt]\<rparr> \<and>
   u_header (final (add_entries sample ''translation'' (Name ''head'') exclaim False [] yes)) =
     u_header sample"
proof -
  have 1: "''translation'' \<noteq> []" by simp
  have 2: "contains (u_header sample) ''translation''" by (simp add: eval_defs)
  have 3: "stdin quiet = []" "stdin no = [''n'']" "\<not> affirmative ''n''"
     "stdin yes = [''Y'']" "affirmative ''Y''"
    by (simp_all add: eval_defs yes_def no_def)
  note q = conflict_asks [OF 1 2, of quiet "Name ''head''" exclaim "[]"]
  note n = conflict_asks [OF 1 2, of no "Name ''head''" exclaim "[]"]
  note y = conflict_asks [OF 1 2, of yes "Name ''head''" exclaim "[]"]
  from q 3 have 4: "add_entries sample ''translation'' (Name ''head'') exclaim False [] quiet =
     Raised EOFError sample (print Prompt (print (AlreadyProduced ''translation'') quiet))"
    by blast
  from n 3 have 5: "add_entries sample ''translation'' (Name ''head'') exclaim False [] no =
     Returned sample (print Aborting
        ((print Prompt (print (AlreadyProduced ''translation'') no))\<lparr>stdin := []\<rparr>))"
    by blast
  from y 3 have 6: "add_entries sample ''translation'' (Name ''head'') exclaim False [] yes =
     add_entries sample ''translation'' (Name ''head'') exclaim True []
        ((print Prompt (print (AlreadyProduced ''translation'') yes))\<lparr>stdin := []\<rparr>)"
    by blast
  have 7: "contains (header sample) ''translation'' \<and>
        getitem (u_header sample) (lower ''translation'') = Inr 1 \<and>
        derive sample (Name ''head'') exclaim [] =
          Inr (\<lambda>key row. case list_getitem row 0 of Inl e \<Rightarrow> Inl e
                              | Inr c \<Rightarrow> exclaim (CellCall c [])) \<and>
        (\<forall>(key, row) \<in> set (u_data sample). in_range row 1 \<and>
             (case list_getitem row 0 of Inl e \<Rightarrow> Inl e | Inr c \<Rightarrow> exclaim (CellCall c [])) =
               Inr (hd row @ ''!''))"
    by (simp add: eval_defs)
  note total = y [THEN conjunct2, THEN conjunct2, THEN conjunct2, THEN conjunct2,
      THEN spec, THEN spec, THEN spec, THEN spec, THEN mp,
      of 1 _ "\<lambda>key row. hd row @ ''!''"
         "(print Prompt (print (AlreadyProduced ''translation'') yes))\<lparr>stdin := []\<rparr>", OF 7]
  have 8: "u_header (final (add_entries sample ''translation'' (Name ''head'') exclaim False [] yes)) =
     u_header sample"
    using y by blast
  show ?thesis
    using 1 2 3 4 5 6 8 total
    by (simp add: print_def quiet_def no_def yes_def sample_def position_def)
qed

theorem conflict_counterexample:
  "contains (u_header sample) ''translation'' \<and>
   add_entries sample ''translation'' (Name ''head'') exclaim False []
       \<lparr>stdin = [''y''], stdout = []\<rparr> =
     Returned (sample\<lparr>u_data := [(1, [''hand'', ''hand!'']), (2, [''foot'', ''foot!''])]\<rparr>)
       \<lparr>stdin = [], stdout = [AlreadyProduced ''translation'', Prompt]\<rparr>"
  by (subst add_entries.simps, simp add: eval_defs, subst add_entries.simps) (simp add: eval_defs)

text \<open>
  C6, at a failing input. The column \<open>tokens\<close> is not in the header and the caller
  passes the keyword \<open>mark="?"\<close>. With \<open>override = False\<close> the transform receives the
  keyword (\<open>hand!?\<close>); with \<open>override = True\<close> the call of line 189 leaves the keywords
  out and the transform does not receive it (\<open>hand!\<close>).
\<close>

theorem retry_drops_keywords:
  "\<not> contains (header sample) ''tokens'' \<and>
   add_entries sample ''tokens'' (Name ''head'') exclaim False [(''mark'', ''?'')] quiet =
     Returned
       \<lparr>u_header = [(''head'', 0), (''HEAD'', 0), (''translation'', 1), (''TRANSLATION'', 1),
                    (''tokens'', 2), (''TOKENS'', 2)],
        header = [(''head'', 0), (''translation'', 1), (''tokens'', 2)],
        u_alias = [(''head'', ''head''), (''HEAD'', ''head''),
                   (''translation'', ''translation''), (''TRANSLATION'', ''translation''),
                   (''tokens'', ''tokens''), (''TOKENS'', ''tokens'')],
        u_alias2 = [(''head'', [''head'', ''HEAD'']),
                    (''translation'', [''translation'', ''TRANSLATION'']),
                    (''tokens'', [''tokens'', ''TOKENS''])],
        entries = [''head'', ''tokens'', ''translation''],
        u_data = [(1, [''hand'', ''mano'', ''hand!?'']), (2, [''foot'', ''pie'', ''foot!?''])]\<rparr>
       quiet \<and>
   add_entries sample ''tokens'' (Name ''head'') exclaim True [(''mark'', ''?'')] quiet =
     Returned
       \<lparr>u_header = [(''head'', 0), (''HEAD'', 0), (''translation'', 1), (''TRANSLATION'', 1),
                    (''tokens'', 2), (''TOKENS'', 2)],
        header = [(''head'', 0), (''translation'', 1), (''tokens'', 2)],
        u_alias = [(''head'', ''head''), (''HEAD'', ''head''),
                   (''translation'', ''translation''), (''TRANSLATION'', ''translation''),
                   (''tokens'', ''tokens''), (''TOKENS'', ''tokens'')],
        u_alias2 = [(''head'', [''head'', ''HEAD'']),
                    (''translation'', [''translation'', ''TRANSLATION'']),
                    (''tokens'', [''tokens'', ''TOKENS''])],
        entries = [''head'', ''tokens'', ''translation''],
        u_data = [(1, [''hand'', ''mano'', ''hand!'']), (2, [''foot'', ''pie'', ''foot!''])]\<rparr>
       quiet"
proof -
  have 1: "\<not> contains (header sample) ''tokens''" "\<not> contains (u_header sample) ''tokens''"
    by (simp_all add: eval_defs)
  have 2: "add_entries sample ''tokens'' (Name ''head'') exclaim True [(''mark'', ''?'')] quiet =
           create sample ''tokens'' (Name ''head'') exclaim [] quiet"
    using 1 by (simp add: add_entries_retry add_entries_create)
  have 3: "add_entries sample ''tokens'' (Name ''head'') exclaim False [(''mark'', ''?'')] quiet =
           create sample ''tokens'' (Name ''head'') exclaim [(''mark'', ''?'')] quiet"
    using 1 by (simp add: add_entries_create)
  show ?thesis
    unfolding 2 3 using 1 by (simp add: eval_defs)
qed

text \<open>
  C3, at a failing input. For the entry \<open>Tokens\<close> the column is registered under the
  canonical name \<open>tokens\<close> in both headers and alias tables, but line 226 puts the
  entry as spelt, \<open>Tokens\<close>, into \<open>entries\<close>; \<open>tokens\<close> is not there.
\<close>

theorem entries_as_spelt:
  "\<not> contains (u_header sample) ''Tokens'' \<and>
   add_entries sample ''Tokens'' (Name ''head'') exclaim False [] quiet =
     Returned
       \<lparr>u_header = [(''head'', 0), (''HEAD'', 0), (''translation'', 1), (''TRANSLATION'', 1),
                    (''tokens'', 2), (''TOKENS'', 2)],
        header = [(''head'', 0), (''translation'', 1), (''tokens'', 2)],
        u_alias = [(''head'', ''head''), (''HEAD'', ''head''),
                   (''translation'', ''translation''), (''TRANSLATION'', ''translation''),
                   (''tokens'', ''tokens''), (''TOKENS'', ''tokens'')],
        u_alias2 = [(''head'', [''head'', ''HEAD'']),
                    (''translation'', [''translation'', ''TRANSLATION'']),
                    (''tokens'', [''tokens'', ''TOKENS''])],
        entries = [''Tokens'', ''head'', ''translation''],
        u_data = [(1, [''hand'', ''mano'', ''hand!'']), (2, [''foot'', ''pie'', ''foot!''])]\<rparr>
       quiet \<and>
   ''tokens'' \<notin> set (entries (final (add_entries sample ''Tokens'' (Name ''head'') exclaim False [] quiet)))"
proof -
  have 1: "\<not> contains (u_header sample) ''Tokens''"
    by (simp add: eval_defs)
  have 2: "add_entries sample ''Tokens'' (Name ''head'') exclaim False [] quiet =
           create sample ''Tokens'' (Name ''head'') exclaim [] quiet"
    using 1 by (simp add: add_entries_create)
  show ?thesis
    unfolding 2 using 1 by (simp add: eval_defs)
qed

text \<open>
  A column spelt anew. The sample has two canonical columns and two cells in every
  row. The entry \<open>Head\<close> is not a spelling in \<open>_header\<close>, so line 192 sees no conflict,
  although its canonical name \<open>head\<close> is registered: the call returns, \<open>head\<close> has moved
  to index 2, every row has three cells and \<open>header\<close> still has two names.
\<close>

lemma respelt_column_evaluated:
  "\<not> contains (u_header sample) ''Head'' \<and>
   length (remdups (map fst (header sample))) = 2 \<and>
   map (length \<circ> snd) (u_data sample) = [2, 2] \<and>
   add_entries sample ''Head'' (Name ''translation'') exclaim False [] quiet =
     Returned widened quiet"
proof -
  have 1: "\<not> contains (u_header sample) ''Head''"
    by (simp add: eval_defs)
  have 2: "add_entries sample ''Head'' (Name ''translation'') exclaim False [] quiet =
           create sample ''Head'' (Name ''translation'') exclaim [] quiet"
    using 1 by (simp add: add_entries_create)
  show ?thesis
    unfolding 2 using 1 by (simp add: eval_defs widened_def)
qed

text \<open>
  An alias spelt anew. In the Dictionary \<open>kopf\<close> the column \<open>kopf\<close> has the alias list
  \<open>[head, kopf]\<close>, both at index 0. The entry \<open>Head\<close> is not a spelling in \<open>_header\<close>, so
  line 192 sees no conflict; the default pair \<open>head\<close>, \<open>HEAD\<close> is made and bound to the
  new index 1. Afterwards the aliases \<open>head\<close> and \<open>kopf\<close> of the registered column
  \<open>kopf\<close> have the indices 1 and 0.
\<close>

lemma respelt_alias_evaluated:
  "\<not> contains (u_header kopf) ''Head'' \<and>
   add_entries kopf ''Head'' (Name ''kopf'') exclaim False [] quiet =
     Returned parted quiet"
proof -
  have 1: "\<not> contains (u_header kopf) ''Head''"
    by (simp add: eval_defs kopf_def)
  have 2: "add_entries kopf ''Head'' (Name ''kopf'') exclaim False [] quiet =
           create kopf ''Head'' (Name ''kopf'') exclaim [] quiet"
    using 1 by (simp add: add_entries_create)
  show ?thesis
    unfolding 2 using 1 by (simp add: eval_defs kopf_def parted_def)
qed

section \<open>The branch that creates a column\<close>

lemma new_alias_same:
  "u_data (new_alias self entry) = u_data self"
  "u_header (new_alias self entry) = u_header self"
  "header (new_alias self entry) = header self"
  "entries (new_alias self entry) = entries self"
  by (simp_all add: new_alias_def)

lemma register_data: "register self entry = Inr self' \<Longrightarrow> u_data self' = u_data self"
  by (auto simp: register_def Let_def new_alias_same split: sum.splits)

lemma create_rows:
  "register self entry = Inr self' \<Longrightarrow> derive self' source fn kw = Inr v \<Longrightarrow>
   create self entry source fn kw con =
     run_rows self' con (\<lambda>key row. case v key row of Inl e \<Rightarrow> Inl e | Inr t \<Rightarrow> Inr (row @ [t]))"
  by (simp add: create_def)

lemma create_all:
  assumes "register self entry = Inr self'" and "derive self' source fn kw = Inr v"
    and "\<And>key row. (key, row) \<in> set (u_data self) \<Longrightarrow> v key row = Inr (g key row)"
  shows "create self entry source fn kw con =
     Returned (self'\<lparr>u_data := map (\<lambda>(key, row). (key, row @ [g key row])) (u_data self)\<rparr>) con"
proof -
  have "for_rows (\<lambda>key row. case v key row of Inl e \<Rightarrow> Inl e | Inr t \<Rightarrow> Inr (row @ [t]))
          (u_data self) = (None, map (\<lambda>(key, row). (key, row @ [g key row])) (u_data self))"
    by (rule for_rows_all) (simp add: assms(3))
  then show ?thesis
    by (simp add: create_rows [OF assms(1,2)] run_rows_def register_data [OF assms(1)])
qed

lemma create_stop:
  assumes "register self entry = Inr self'" and "derive self' source fn kw = Inr v"
    and "u_data self = pre @ (key, row) # post"
    and "\<And>k r. (k, r) \<in> set pre \<Longrightarrow> v k r = Inr (g k r)"
    and "v key row = Inl e"
  shows "create self entry source fn kw con =
     Raised e (self'\<lparr>u_data := map (\<lambda>(k, r). (k, r @ [g k r])) pre @ (key, row) # post\<rparr>) con"
proof -
  have "for_rows (\<lambda>key row. case v key row of Inl e \<Rightarrow> Inl e | Inr t \<Rightarrow> Inr (row @ [t]))
          (pre @ (key, row) # post) =
        (Some e, map (\<lambda>(k, r). (k, r @ [g k r])) pre @ (key, row) # post)"
    by (rule for_rows_stop) (simp_all add: assms(4,5))
  then show ?thesis
    by (simp add: create_rows [OF assms(1,2)] run_rows_def register_data [OF assms(1)] assms(3))
qed

lemma replace_stop:
  assumes "getitem (u_header self) (lower entry) = Inr rIdx"
    and "derive self source fn kw = Inr v"
    and "u_data self = pre @ (key, row) # post"
    and "\<And>k r. (k, r) \<in> set pre \<Longrightarrow> in_range r rIdx \<and> v k r = Inr (g k r)"
    and "v key row = Inl e"
  shows "replace self entry source fn kw con =
     Raised e (self\<lparr>u_data := map (\<lambda>(k, r). (k, r[position r rIdx := g k r])) pre @
                                 (key, row) # post\<rparr>) con"
proof -
  have "for_rows (\<lambda>key row. case v key row of Inl e \<Rightarrow> Inl e | Inr t \<Rightarrow> list_setitem row rIdx t)
          (pre @ (key, row) # post) =
        (Some e, map (\<lambda>(k, r). (k, r[position r rIdx := g k r])) pre @ (key, row) # post)"
    by (rule for_rows_stop) (simp_all add: assms(4,5) list_setitem_def)
  with assms(1,2,3) show ?thesis
    by (simp add: replace_def run_rows_def)
qed

lemma derive_Mapping:
  "derive self (Mapping m) fn kw =
     Inr (\<lambda>key row. case m key of None \<Rightarrow> Inl KeyError | Some s \<Rightarrow> fn (ValueCall s))"
  by (simp add: derive_def)

text \<open>
  C7, as the code has it. With a dict as source, the transform is applied, row by row
  in the order of the rows, to the value that the dict has for the key of the row, and
  the result is appended (create) or written at the column's index (override). At the
  first row whose key is not in the dict the call raises \<open>KeyError\<close>: the rows before
  it keep their new cells, that row and the rows after it are as before, and on the
  create path the column stays registered.
\<close>

theorem mapping_source:
  assumes "entry \<noteq> []"
  shows "(\<not> contains (u_header self) entry \<and> register self entry = Inr self' \<and>
      (\<forall>(key, row) \<in> set (u_data self). m key = Some (s key) \<and> fn (ValueCall (s key)) = Inr (g key)) \<longrightarrow>
      add_entries self entry (Mapping m) fn False kw con =
        Returned (self'\<lparr>u_data := map (\<lambda>(key, row). (key, row @ [g key])) (u_data self)\<rparr>) con) \<and>
     (\<not> contains (u_header self) entry \<and> register self entry = Inr self' \<and>
      u_data self = pre @ (key, row) # post \<and> m key = None \<and>
      (\<forall>(k, r) \<in> set pre. m k = Some (s k) \<and> fn (ValueCall (s k)) = Inr (g k)) \<longrightarrow>
      add_entries self entry (Mapping m) fn False kw con =
        Raised KeyError
          (self'\<lparr>u_data := map (\<lambda>(k, r). (k, r @ [g k])) pre @ (key, row) # post\<rparr>) con) \<and>
     (contains (header self) entry \<and> getitem (u_header self) (lower entry) = Inr rIdx \<and>
      (\<forall>(key, row) \<in> set (u_data self). in_range row rIdx \<and>
          m key = Some (s key) \<and> fn (ValueCall (s key)) = Inr (g key)) \<longrightarrow>
      add_entries self entry (Mapping m) fn True kw con =
        Returned (self\<lparr>u_data := map (\<lambda>(key, row). (key, row[position row rIdx := g key]))
                                    (u_data self)\<rparr>) con) \<and>
     (contains (header self) entry \<and> getitem (u_header self) (lower entry) = Inr rIdx \<and>
      u_data self = pre @ (key, row) # post \<and> m key = None \<and>
      (\<forall>(k, r) \<in> set pre. in_range r rIdx \<and> m k = Some (s k) \<and> fn (ValueCall (s k)) = Inr (g k)) \<longrightarrow>
      add_entries self entry (Mapping m) fn True kw con =
        Raised KeyError
          (self\<lparr>u_data := map (\<lambda>(k, r). (k, r[position r rIdx := g k])) pre @
                               (key, row) # post\<rparr>) con)"
proof (intro conjI impI)
  assume a: "\<not> contains (u_header self) entry \<and> register self entry = Inr self' \<and>
      (\<forall>(key, row) \<in> set (u_data self). m key = Some (s key) \<and> fn (ValueCall (s key)) = Inr (g key))"
  have "create self entry (Mapping m) fn kw con =
     Returned (self'\<lparr>u_data := map (\<lambda>(key, row). (key, row @ [g key])) (u_data self)\<rparr>) con"
    by (rule create_all [OF _ derive_Mapping]) (use a in auto)
  with a assms show "add_entries self entry (Mapping m) fn False kw con =
        Returned (self'\<lparr>u_data := map (\<lambda>(key, row). (key, row @ [g key])) (u_data self)\<rparr>) con"
    by (simp add: add_entries_create)
next
  assume a: "\<not> contains (u_header self) entry \<and> register self entry = Inr self' \<and>
      u_data self = pre @ (key, row) # post \<and> m key = None \<and>
      (\<forall>(k, r) \<in> set pre. m k = Some (s k) \<and> fn (ValueCall (s k)) = Inr (g k))"
  have "create self entry (Mapping m) fn kw con =
     Raised KeyError (self'\<lparr>u_data := map (\<lambda>(k, r). (k, r @ [g k])) pre @ (key, row) # post\<rparr>) con"
    by (rule create_stop [OF _ derive_Mapping]) (use a in auto)
  with a assms show "add_entries self entry (Mapping m) fn False kw con =
        Raised KeyError
          (self'\<lparr>u_data := map (\<lambda>(k, r). (k, r @ [g k])) pre @ (key, row) # post\<rparr>) con"
    by (simp add: add_entries_create)
next
  assume a: "contains (header self) entry \<and> getitem (u_header self) (lower entry) = Inr rIdx \<and>
      (\<forall>(key, row) \<in> set (u_data self). in_range row rIdx \<and>
          m key = Some (s key) \<and> fn (ValueCall (s key)) = Inr (g key))"
  have "replace self entry (Mapping m) fn kw con =
        Returned (self\<lparr>u_data := map (\<lambda>(key, row). (key, row[position row rIdx := g key]))
                                    (u_data self)\<rparr>) con"
    by (rule replace_all [OF _ derive_Mapping]) (use a in auto)
  with a assms show "add_entries self entry (Mapping m) fn True kw con =
        Returned (self\<lparr>u_data := map (\<lambda>(key, row). (key, row[position row rIdx := g key]))
                                    (u_data self)\<rparr>) con"
    by (simp add: add_entries_replace)
next
  assume a: "contains (header self) entry \<and> getitem (u_header self) (lower entry) = Inr rIdx \<and>
      u_data self = pre @ (key, row) # post \<and> m key = None \<and>
      (\<forall>(k, r) \<in> set pre. in_range r rIdx \<and> m k = Some (s k) \<and> fn (ValueCall (s k)) = Inr (g k))"
  have "replace self entry (Mapping m) fn kw con =
        Raised KeyError
          (self\<lparr>u_data := map (\<lambda>(k, r). (k, r[position r rIdx := g k])) pre @
                               (key, row) # post\<rparr>) con"
    by (rule replace_stop [OF _ derive_Mapping]) (use a in auto)
  with a assms show "add_entries self entry (Mapping m) fn True kw con =
        Raised KeyError
          (self\<lparr>u_data := map (\<lambda>(k, r). (k, r[position r rIdx := g k])) pre @
                               (key, row) # post\<rparr>) con"
    by (simp add: add_entries_replace)
qed

theorem mapping_source_witness:
  "''gloss'' \<noteq> [] \<and> ''translation'' \<noteq> [] \<and>
   add_entries sample ''gloss'' (Mapping [1 \<mapsto> ''uno'', 2 \<mapsto> ''dos'']) exclaim False [] quiet =
     Returned (glossed\<lparr>u_data := [(1, [''hand'', ''mano'', ''uno?'']),
                                  (2, [''foot'', ''pie'', ''dos?''])]\<rparr>) quiet \<and>
   add_entries sample ''gloss'' (Mapping [1 \<mapsto> ''uno'']) exclaim False [] quiet =
     Raised KeyError (glossed\<lparr>u_data := [(1, [''hand'', ''mano'', ''uno?'']),
                                        (2, [''foot'', ''pie''])]\<rparr>) quiet \<and>
   add_entries sample ''translation'' (Mapping [1 \<mapsto> ''uno'', 2 \<mapsto> ''dos'']) exclaim True [] quiet =
     Returned (sample\<lparr>u_data := [(1, [''hand'', ''uno?'']), (2, [''foot'', ''dos?''])]\<rparr>) quiet \<and>
   add_entries sample ''translation'' (Mapping [1 \<mapsto> ''uno'']) exclaim True [] quiet =
     Raised KeyError (sample\<lparr>u_data := [(1, [''hand'', ''uno?'']), (2, [''foot'', ''pie''])]\<rparr>) quiet"
proof -
  have ne: "''gloss'' \<noteq> []" "''translation'' \<noteq> []" by simp_all
  have new: "\<not> contains (u_header sample) ''gloss''" by (simp add: eval_defs)
  have reg: "register sample ''gloss'' = Inr glossed" by (simp add: eval_defs glossed_def)
  have old: "contains (header sample) ''translation''" by (simp add: eval_defs)
  have idx: "getitem (u_header sample) (lower ''translation'') = Inr 1" by (simp add: eval_defs)
  have rows: "u_data sample = [(1, [''hand'', ''mano''])] @ (2, [''foot'', ''pie'']) # []"
    by (simp add: sample_def)
  note full = mapping_source [where m = "[1 \<mapsto> ''uno'', 2 \<mapsto> ''dos'']" and s = numerals
      and g = "\<lambda>key. numerals key @ ''?''" and fn = exclaim and kw = "[]" and con = quiet
      and self = sample and self' = glossed and rIdx = 1]
  note part = mapping_source [where m = "[1 \<mapsto> ''uno'']" and s = numerals
      and g = "\<lambda>key. numerals key @ ''?''" and fn = exclaim and kw = "[]" and con = quiet
      and self = sample and self' = glossed and rIdx = 1
      and pre = "[(1, [''hand'', ''mano''])]" and key = 2 and row = "[''foot'', ''pie'']"
      and post = "[]"]
  have 1: "add_entries sample ''gloss'' (Mapping [1 \<mapsto> ''uno'', 2 \<mapsto> ''dos'']) exclaim False [] quiet =
     Returned (glossed\<lparr>u_data := map (\<lambda>(key, row). (key, row @ [numerals key @ ''?'']))
                                     (u_data sample)\<rparr>) quiet"
    by (rule full [OF ne(1), THEN conjunct1, THEN mp])
       (simp add: new reg, simp add: sample_def numerals_def exclaim_def)
  have 2: "add_entries sample ''gloss'' (Mapping [1 \<mapsto> ''uno'']) exclaim False [] quiet =
     Raised KeyError (glossed\<lparr>u_data := map (\<lambda>(k, r). (k, r @ [numerals k @ ''?'']))
                                     [(1, [''hand'', ''mano''])] @ (2, [''foot'', ''pie'']) # []\<rparr>) quiet"
    by (rule part [OF ne(1), THEN conjunct2, THEN conjunct1, THEN mp])
       (simp add: new reg rows, simp add: numerals_def exclaim_def)
  have 3: "add_entries sample ''translation'' (Mapping [1 \<mapsto> ''uno'', 2 \<mapsto> ''dos'']) exclaim True [] quiet =
     Returned (sample\<lparr>u_data := map (\<lambda>(key, row). (key, row[position row 1 := numerals key @ ''?'']))
                                    (u_data sample)\<rparr>) quiet"
    by (rule full [OF ne(2), THEN conjunct2, THEN conjunct2, THEN conjunct1, THEN mp])
       (simp add: old idx, simp add: sample_def numerals_def exclaim_def in_range_def)
  have 4: "add_entries sample ''translation'' (Mapping [1 \<mapsto> ''uno'']) exclaim True [] quiet =
     Raised KeyError (sample\<lparr>u_data := map (\<lambda>(k, r). (k, r[position r 1 := numerals k @ ''?'']))
                                     [(1, [''hand'', ''mano''])] @ (2, [''foot'', ''pie'']) # []\<rparr>) quiet"
    by (rule part [OF ne(2), THEN conjunct2, THEN conjunct2, THEN conjunct2, THEN mp])
       (simp add: old idx rows, simp add: numerals_def exclaim_def in_range_def)
  show ?thesis
    using 1 2 3 4 by (simp add: sample_def numerals_def position_def)
qed

theorem mapping_source_counterexample:
  "add_entries sample ''gloss'' (Mapping [1 \<mapsto> ''uno'']) exclaim False [] quiet =
     Raised KeyError
       \<lparr>u_header = [(''head'', 0), (''HEAD'', 0), (''translation'', 1), (''TRANSLATION'', 1),
                    (''gloss'', 2), (''GLOSS'', 2)],
        header = [(''head'', 0), (''translation'', 1), (''gloss'', 2)],
        u_alias = [(''head'', ''head''), (''HEAD'', ''head''),
                   (''translation'', ''translation''), (''TRANSLATION'', ''translation''),
                   (''gloss'', ''gloss''), (''GLOSS'', ''gloss'')],
        u_alias2 = [(''head'', [''head'', ''HEAD'']),
                    (''translation'', [''translation'', ''TRANSLATION'']),
                    (''gloss'', [''gloss'', ''GLOSS''])],
        entries = [''gloss'', ''head'', ''translation''],
        u_data = [(1, [''hand'', ''mano'', ''uno?'']), (2, [''foot'', ''pie''])]\<rparr>
       quiet \<and>
   u_data sample = [(1, [''hand'', ''mano'']), (2, [''foot'', ''pie''])]"
proof -
  have 1: "\<not> contains (u_header sample) ''gloss''"
    by (simp add: eval_defs)
  have 2: "add_entries sample ''gloss'' (Mapping [1 \<mapsto> ''uno'']) exclaim False [] quiet =
           create sample ''gloss'' (Mapping [1 \<mapsto> ''uno'']) exclaim [] quiet"
    using 1 by (simp add: add_entries_create)
  show ?thesis
    unfolding 2 by (simp add: eval_defs)
qed

lemma derive_Name:
  "CHR '','' \<notin> set s \<Longrightarrow> getitem (u_header self) s = Inr idx \<Longrightarrow>
   derive self (Name s) fn kw =
     Inr (\<lambda>key row. case list_getitem row idx of
                       Inl e \<Rightarrow> Inl e
                     | Inr c \<Rightarrow> fn (CellCall c kw))"
  by (simp add: derive_def)

text \<open>
  C9. \<open>tokenize\<close> is \<open>add_entries\<close> for the target column with the given source,
  \<open>override = False\<close> and no keywords, and with a transform that maps a cell to the
  list of the pieces of the tokenizer's output between blanks when the target is
  \<open>tokens\<close>, and to the tokenizer's output itself for any other target (and raises
  what the tokenizer raises). For a target that is not in \<open>_header\<close>, with the source
  \<open>head\<close>, which is the default, every row gets that value of its \<open>head\<close> cell as a new
  last cell, when the registration goes through, every row has a cell at the index of
  \<open>head\<close> and the tokenizer gives a string for it.
\<close>

theorem tokenize_adapter:
  "tokenize tokenizer self profile source target conversion kw con =
     add_entries self target source (tokenize_function (tokenizer profile) target) False [] con \<and>
   (\<forall>x s. tokenizer profile x = Inr s \<longrightarrow>
      tokenize_function (tokenizer profile) ''tokens'' (CellCall x []) =
        Inr (StrList (str_split CHR '' '' s))) \<and>
   (\<forall>x s. target \<noteq> ''tokens'' \<and> tokenizer profile x = Inr s \<longrightarrow>
      tokenize_function (tokenizer profile) target (CellCall x []) = Inr (Str s)) \<and>
   (\<forall>x e. tokenizer profile x = Inl e \<longrightarrow>
      tokenize_function (tokenizer profile) target (CellCall x []) = Inl e) \<and>
   tokenize_default_source = Name ''head'' \<and>
   (target \<noteq> [] \<and> \<not> contains (u_header self) target \<and> register self target = Inr self' \<and>
    getitem (u_header self') ''head'' = Inr idx \<and>
    (\<forall>(key, row) \<in> set (u_data self).
        in_range row idx \<and> tokenizer profile (row ! position row idx) = Inr (g row)) \<longrightarrow>
    tokenize tokenizer self profile tokenize_default_source target conversion kw con =
      Returned
        (self'\<lparr>u_data :=
            map (\<lambda>(key, row).
                   (key, row @ [if target = ''tokens'' then StrList (str_split CHR '' '' (g row))
                                else Str (g row)]))
              (u_data self)\<rparr>) con)"
proof (intro conjI allI impI)
  show "tokenize tokenizer self profile source target conversion kw con =
     add_entries self target source (tokenize_function (tokenizer profile) target) False [] con"
    by (simp add: tokenize_def)
next
  fix x s assume "tokenizer profile x = Inr s"
  then show "tokenize_function (tokenizer profile) ''tokens'' (CellCall x []) =
        Inr (StrList (str_split CHR '' '' s))"
    by (simp add: tokenize_function_def one_argument_def)
next
  fix x s assume "target \<noteq> ''tokens'' \<and> tokenizer profile x = Inr s"
  then show "tokenize_function (tokenizer profile) target (CellCall x []) = Inr (Str s)"
    by (simp add: tokenize_function_def one_argument_def)
next
  fix x e assume "tokenizer profile x = Inl e"
  then show "tokenize_function (tokenizer profile) target (CellCall x []) = Inl e"
    by (simp add: tokenize_function_def one_argument_def)
next
  show "tokenize_default_source = Name ''head''"
    by (simp add: tokenize_default_source_def)
next
  let ?f = "tokenize_function (tokenizer profile) target"
  let ?g = "\<lambda>row. if target = ''tokens'' then StrList (str_split CHR '' '' (g row)) else Str (g row)"
  assume a: "target \<noteq> [] \<and> \<not> contains (u_header self) target \<and> register self target = Inr self' \<and>
    getitem (u_header self') ''head'' = Inr idx \<and>
    (\<forall>(key, row) \<in> set (u_data self).
        in_range row idx \<and> tokenizer profile (row ! position row idx) = Inr (g row))"
  have d: "derive self' (Name ''head'') ?f [] =
     Inr (\<lambda>key row. case list_getitem row idx of Inl e \<Rightarrow> Inl e | Inr c \<Rightarrow> ?f (CellCall c []))"
    using a by (intro derive_Name) auto
  have "create self target (Name ''head'') ?f [] con =
      Returned (self'\<lparr>u_data := map (\<lambda>(key, row). (key, row @ [?g row])) (u_data self)\<rparr>) con"
  proof (rule create_all [OF _ d])
    show "register self target = Inr self'" using a by simp
  next
    fix key row assume "(key, row) \<in> set (u_data self)"
    with a have "in_range row idx" "tokenizer profile (row ! position row idx) = Inr (g row)"
      by auto
    then show "(case list_getitem row idx of Inl e \<Rightarrow> Inl e | Inr c \<Rightarrow> ?f (CellCall c [])) =
                 Inr (?g row)"
      by (simp add: list_getitem_def tokenize_function_def one_argument_def)
  qed
  with a show "tokenize tokenizer self profile tokenize_default_source target conversion kw con =
      Returned (self'\<lparr>u_data := map (\<lambda>(key, row). (key, row @ [?g row])) (u_data self)\<rparr>) con"
    by (simp add: tokenize_def tokenize_default_source_def add_entries_create)
qed

theorem tokenize_adapter_witness:
  "spell ''profile'' (Str ''hello'') = Inr ''h e l l o'' \<and>
   tokenize_function (spell ''profile'') ''tokens'' (CellCall (Str ''hello'') []) =
     Inr (StrList [''h'', ''e'', ''l'', ''l'', ''o'']) \<and>
   ''ipa'' \<noteq> ''tokens'' \<and>
   tokenize_function (spell ''profile'') ''ipa'' (CellCall (Str ''hello'') []) =
     Inr (Str ''h e l l o'') \<and>
   spell ''profile'' (StrList []) = Inl TypeError \<and>
   tokenize_function (spell ''profile'') ''ipa'' (CellCall (StrList []) []) = Inl TypeError \<and>
   ''tokens'' \<noteq> [] \<and> \<not> contains (u_header words) ''tokens'' \<and>
   register words ''tokens'' = Inr (tokenized ''tokens'') \<and>
   getitem (u_header (tokenized ''tokens'')) ''head'' = Inr 0 \<and>
   tokenize spell words ''profile'' (Name ''head'') ''tokens'' ''graphemes'' [] quiet =
     Returned
       ((tokenized ''tokens'')\<lparr>u_data :=
           [(1, [Str ''hello'', StrList [''h'', ''e'', ''l'', ''l'', ''o'']]),
            (2, [Str ''ab'', StrList [''a'', ''b'']])]\<rparr>) quiet \<and>
   tokenize spell words ''profile'' (Name ''head'') ''ipa'' ''graphemes'' [] quiet =
     Returned
       ((tokenized ''ipa'')\<lparr>u_data :=
           [(1, [Str ''hello'', Str ''h e l l o'']), (2, [Str ''ab'', Str ''a b''])]\<rparr>) quiet"
proof -
  note t = tokenize_adapter [where tokenizer = spell and profile = "''profile''" and self = words
      and target = "''tokens''" and self' = "tokenized ''tokens''" and idx = 0 and con = quiet
      and kw = "[]" and conversion = "''graphemes''"
      and g = "\<lambda>row. case hd row of Str s \<Rightarrow> spaced s | StrList ss \<Rightarrow> []"]
  note i = tokenize_adapter [where tokenizer = spell and profile = "''profile''" and self = words
      and target = "''ipa''" and self' = "tokenized ''ipa''" and idx = 0 and con = quiet
      and kw = "[]" and conversion = "''graphemes''"
      and g = "\<lambda>row. case hd row of Str s \<Rightarrow> spaced s | StrList ss \<Rightarrow> []"]
  have 1: "spell ''profile'' (Str ''hello'') = Inr ''h e l l o''"
    by (simp add: spell_def)
  have 2: "spell ''profile'' (StrList []) = Inl TypeError"
    by (simp add: spell_def)
  from t 1 have 3: "tokenize_function (spell ''profile'') ''tokens'' (CellCall (Str ''hello'') []) =
     Inr (StrList (str_split CHR '' '' ''h e l l o''))"
    by blast
  have 4: "''ipa'' \<noteq> ''tokens''" by simp
  from i 1 4 have 5: "tokenize_function (spell ''profile'') ''ipa'' (CellCall (Str ''hello'') []) =
     Inr (Str ''h e l l o'')"
    by blast
  from i 2 have 6: "tokenize_function (spell ''profile'') ''ipa'' (CellCall (StrList []) []) =
     Inl TypeError"
    by blast
  have 7: "''tokens'' \<noteq> []" "\<not> contains (u_header words) ''tokens''"
    "register words ''tokens'' = Inr (tokenized ''tokens'')"
    "getitem (u_header (tokenized ''tokens'')) ''head'' = Inr 0"
    by (simp_all add: eval_defs words_def tokenized_def)
  have 8: "''ipa'' \<noteq> []" "\<not> contains (u_header words) ''ipa''"
    "register words ''ipa'' = Inr (tokenized ''ipa'')"
    "getitem (u_header (tokenized ''ipa'')) ''head'' = Inr 0"
    by (simp_all add: eval_defs words_def tokenized_def)
  have 9: "\<forall>(key, row) \<in> set (u_data words).
        in_range row 0 \<and> spell ''profile'' (row ! position row 0) =
          Inr (case hd row of Str s \<Rightarrow> spaced s | StrList ss \<Rightarrow> [])"
    by (simp add: words_def in_range_def position_def spell_def)
  have 10: "tokenize spell words ''profile'' tokenize_default_source ''tokens'' ''graphemes'' [] quiet =
      Returned
        ((tokenized ''tokens'')\<lparr>u_data :=
            map (\<lambda>(key, row).
                   (key, row @ [if ''tokens'' = ''tokens''
                      then StrList (str_split CHR '' '' (case hd row of Str s \<Rightarrow> spaced s | StrList ss \<Rightarrow> []))
                      else Str (case hd row of Str s \<Rightarrow> spaced s | StrList ss \<Rightarrow> [])]))
              (u_data words)\<rparr>) quiet"
    by (rule t [THEN conjunct2, THEN conjunct2, THEN conjunct2, THEN conjunct2, THEN conjunct2, THEN mp])
       (intro conjI 7 9)
  have 11: "tokenize spell words ''profile'' tokenize_default_source ''ipa'' ''graphemes'' [] quiet =
      Returned
        ((tokenized ''ipa'')\<lparr>u_data :=
            map (\<lambda>(key, row).
                   (key, row @ [if ''ipa'' = ''tokens''
                      then StrList (str_split CHR '' '' (case hd row of Str s \<Rightarrow> spaced s | StrList ss \<Rightarrow> []))
                      else Str (case hd row of Str s \<Rightarrow> spaced s | StrList ss \<Rightarrow> [])]))
              (u_data words)\<rparr>) quiet"
    by (rule i [THEN conjunct2, THEN conjunct2, THEN conjunct2, THEN conjunct2, THEN conjunct2, THEN mp])
       (intro conjI 8 9)
  from 3 have 12: "tokenize_function (spell ''profile'') ''tokens'' (CellCall (Str ''hello'') []) =
     Inr (StrList [''h'', ''e'', ''l'', ''l'', ''o''])"
    by simp
  show ?thesis
    using 1 2 12 4 5 6 7 10 11
    by (simp add: tokenize_default_source_def words_def)
qed

section \<open>What the registration does\<close>

lemma contains_iff: "contains d k \<longleftrightarrow> k \<in> fst ` set d"
  by (simp add: contains_def map_of_eq_None_iff)

lemma getitem_Inr: "getitem d k = Inr v \<longleftrightarrow> map_of d k = Some v"
  by (simp add: getitem_def split: option.splits)

lemma map_of_bind_aliases:
  "map_of (bind_aliases as i h) a = (if a \<in> set as then Some i else map_of h a)"
  unfolding bind_aliases_def
  by (induction as arbitrary: h) (auto simp: update_conv')

lemma py_max_Inr:
  assumes "py_max xs = Inr m"
  shows "xs \<noteq> [] \<and> m = Max (set xs)"
proof (cases xs)
  case Nil
  with assms show ?thesis by simp
next
  case (Cons a list)
  with assms have "m = fold max list a" by simp
  with Cons show ?thesis using Max.set_eq_fold [of a list] by simp
qed

lemma canonical_default:
  "\<not> contains (u_alias2 self) (lower entry) \<Longrightarrow> canonical self entry = Inr (lower entry)"
  by (simp add: canonical_def new_alias_def getitem_def update_conv')

lemma alias2_new_alias:
  "map_of (u_alias2 (new_alias self entry)) name =
     (if \<not> contains (u_alias2 self) (lower entry) \<and> name = lower entry
      then Some [lower entry, upper entry] else map_of (u_alias2 self) name)"
  by (simp add: new_alias_def update_conv')

lemma alias2_registered:
  assumes "unregistered self entry" and "contains (header self) name"
  shows "map_of (u_alias2 (new_alias self entry)) name = map_of (u_alias2 self) name"
proof (cases "contains (u_alias2 self) (lower entry)")
  case True
  then show ?thesis by (simp add: alias2_new_alias)
next
  case False
  with assms have "name \<noteq> lower entry"
    by (auto simp: unregistered_def canonical_default)
  then show ?thesis by (simp add: alias2_new_alias)
qed

lemma register_Inr:
  assumes "register self entry = Inr self'"
  shows "\<exists>name m as i. canonical self entry = Inr name \<and>
     py_max (map snd (u_header self)) = Inr m \<and>
     getitem (u_alias2 (new_alias self entry)) name = Inr as \<and>
     getitem (bind_aliases as (m + 1) (u_header self)) name = Inr i \<and>
     self' = (new_alias self entry)
       \<lparr>u_header := bind_aliases as (m + 1) (u_header self),
        header := AList.update name i (header self),
        entries := sort (remdups (entries self @ [entry]))\<rparr>"
  using assms
  by (auto simp: register_def canonical_def Let_def new_alias_same split: sum.splits)

lemma register_Inl:
  assumes "register self entry = Inl (e, self')"
  shows "self' = new_alias self entry \<or>
     (\<exists>m. py_max (map snd (u_header self)) = Inr m \<and>
        self' = (new_alias self entry)
          \<lparr>u_header := bind_aliases (spellings self entry) (m + 1) (u_header self)\<rparr>)"
  using assms
  by (auto simp: register_def canonical_def spellings_def Let_def new_alias_same split: sum.splits)

lemma spellings_Inr:
  "canonical self entry = Inr name \<Longrightarrow> getitem (u_alias2 (new_alias self entry)) name = Inr as \<Longrightarrow>
   spellings self entry = as"
  by (simp add: spellings_def)

section \<open>Alias consistency\<close>

lemma alias_consistent_agree:
  "alias_consistent self \<longleftrightarrow>
     (\<forall>name as. contains (header self) name \<and> map_of (u_alias2 self) name = Some as \<longrightarrow>
        agree (u_header self) as)"
proof
  assume c: "alias_consistent self"
  show "\<forall>name as. contains (header self) name \<and> map_of (u_alias2 self) name = Some as \<longrightarrow>
        agree (u_header self) as"
  proof (intro allI impI)
    fix name as
    assume h: "contains (header self) name \<and> map_of (u_alias2 self) name = Some as"
    then obtain i where "(name, i) \<in> set (header self)"
      by (auto simp: contains_iff)
    with c have "case map_of (u_alias2 self) name of None \<Rightarrow> True
          | Some as \<Rightarrow> agree (u_header self) as"
      unfolding alias_consistent_def by blast
    with h show "agree (u_header self) as" by simp
  qed
next
  assume r: "\<forall>name as. contains (header self) name \<and> map_of (u_alias2 self) name = Some as \<longrightarrow>
        agree (u_header self) as"
  have "case map_of (u_alias2 self) name of None \<Rightarrow> True | Some as \<Rightarrow> agree (u_header self) as"
    if "(name, i) \<in> set (header self)" for name i
  proof -
    from that have "contains (header self) name"
      by (force simp: contains_iff)
    with r show ?thesis by (simp split: option.splits)
  qed
  then show "alias_consistent self"
    unfolding alias_consistent_def by blast
qed

lemma alias_consistent_data [simp]:
  "alias_consistent (self\<lparr>u_data := rows\<rparr>) = alias_consistent self"
  by (simp add: alias_consistent_agree)

lemma agree_bound: "agree (bind_aliases as i h) as"
  by (simp add: agree_def map_of_bind_aliases)

lemma agree_kept:
  assumes "agree h bs" and "\<And>b. b \<in> set bs \<Longrightarrow> b \<notin> set as"
  shows "agree (bind_aliases as i h) bs"
proof -
  have "map_of (bind_aliases as i h) b = map_of h b" if "b \<in> set bs" for b
    using assms(2) [OF that] by (simp add: map_of_bind_aliases)
  with assms(1) show ?thesis
    unfolding agree_def by metis
qed

lemma agree_contains: "agree h bs \<Longrightarrow> b \<in> set bs \<Longrightarrow> contains h b"
  unfolding agree_def contains_def by blast

lemma consistent_new_alias:
  assumes "alias_consistent self" and "unregistered self entry"
  shows "alias_consistent (new_alias self entry)"
  unfolding alias_consistent_agree
proof (intro allI impI)
  fix name as
  assume h: "contains (header (new_alias self entry)) name \<and>
             map_of (u_alias2 (new_alias self entry)) name = Some as"
  then have reg: "contains (header self) name" by (simp add: new_alias_same)
  with h assms(2) have "map_of (u_alias2 self) name = Some as"
    by (simp add: alias2_registered)
  with assms(1) reg have "agree (u_header self) as"
    unfolding alias_consistent_agree by blast
  then show "agree (u_header (new_alias self entry)) as"
    by (simp add: new_alias_same)
qed

lemma consistent_bound:
  assumes "alias_consistent self" and "unregistered self entry" and "unbound self entry"
  shows "alias_consistent ((new_alias self entry)
           \<lparr>u_header := bind_aliases (spellings self entry) i (u_header self)\<rparr>)"
  unfolding alias_consistent_agree
proof (intro allI impI)
  let ?s = "(new_alias self entry)\<lparr>u_header := bind_aliases (spellings self entry) i (u_header self)\<rparr>"
  fix name as
  assume h: "contains (header ?s) name \<and> map_of (u_alias2 ?s) name = Some as"
  then have reg: "contains (header self) name" by (simp add: new_alias_same)
  with h assms(2) have as: "map_of (u_alias2 self) name = Some as"
    by (simp add: alias2_registered)
  from assms(1) reg as have old: "agree (u_header self) as"
    unfolding alias_consistent_agree by blast
  have "agree (bind_aliases (spellings self entry) i (u_header self)) as"
  proof (rule agree_kept [OF old])
    fix b assume "b \<in> set as"
    with old have "contains (u_header self) b" by (rule agree_contains)
    with assms(3) show "b \<notin> set (spellings self entry)" by (auto simp: unbound_def)
  qed
  then show "agree (u_header ?s) as" by simp
qed

lemma consistent_registered:
  assumes "alias_consistent self" and "unregistered self entry" and "unbound self entry"
    and "register self entry = Inr self'"
  shows "alias_consistent self'"
proof -
  from register_Inr [OF assms(4)] obtain name m as i where
    r: "canonical self entry = Inr name"
       "getitem (u_alias2 (new_alias self entry)) name = Inr as"
       "self' = (new_alias self entry)
          \<lparr>u_header := bind_aliases as (m + 1) (u_header self),
           header := AList.update name i (header self),
           entries := sort (remdups (entries self @ [entry]))\<rparr>"
    by blast
  have sp: "spellings self entry = as"
    using r(1,2) by (rule spellings_Inr)
  let ?s = "(new_alias self entry)\<lparr>u_header := bind_aliases as (m + 1) (u_header self)\<rparr>"
  have mid: "alias_consistent ?s"
    using consistent_bound [OF assms(1,2,3), of "m + 1"] by (simp add: sp)
  have hd: "u_header self' = bind_aliases as (m + 1) (u_header self)"
    and a2: "u_alias2 self' = u_alias2 (new_alias self entry)"
    and he: "header self' = AList.update name i (header self)"
    by (simp_all add: r(3))
  show ?thesis
    unfolding alias_consistent_agree
  proof (intro allI impI)
    fix n bs
    assume h: "contains (header self') n \<and> map_of (u_alias2 self') n = Some bs"
    show "agree (u_header self') bs"
    proof (cases "n = name")
      case True
      with h r(2) a2 have "bs = as" by (simp add: getitem_Inr)
      then show ?thesis by (simp add: hd agree_bound)
    next
      case False
      with h have "contains (header self) n"
        by (simp add: he contains_def update_conv')
      with h a2 have "contains (header ?s) n \<and> map_of (u_alias2 ?s) n = Some bs"
        by (simp add: new_alias_same)
      with mid have "agree (u_header ?s) bs"
        unfolding alias_consistent_agree by blast
      then show ?thesis by (simp add: hd)
    qed
  qed
qed

lemma consistent_unregistered:
  assumes "alias_consistent self" and "unregistered self entry" and "unbound self entry"
    and "register self entry = Inl (e, self')"
  shows "alias_consistent self'"
proof -
  from register_Inl [OF assms(4)] consider "self' = new_alias self entry"
    | m where "self' = (new_alias self entry)
          \<lparr>u_header := bind_aliases (spellings self entry) (m + 1) (u_header self)\<rparr>"
    by blast
  then show ?thesis
  proof cases
    case 1
    then show ?thesis using consistent_new_alias [OF assms(1,2)] by simp
  next
    case 2
    then show ?thesis using consistent_bound [OF assms(1,2,3), of "m + 1"] by simp
  qed
qed

lemma create_final:
  "(\<exists>e self'. register self entry = Inl (e, self') \<and>
       final (create self entry source fn kw con) = self') \<or>
   (\<exists>self' rows. register self entry = Inr self' \<and>
       final (create self entry source fn kw con) = self'\<lparr>u_data := rows\<rparr>)"
proof (cases "register self entry")
  case (Inl p)
  then show ?thesis by (cases p) (simp add: create_def)
next
  case (Inr s)
  show ?thesis
  proof (cases "derive s source fn kw")
    case (Inl e)
    with Inr have "final (create self entry source fn kw con) = s\<lparr>u_data := u_data s\<rparr>"
      by (simp add: create_def)
    with Inr show ?thesis by blast
  next
    case v: (Inr v)
    with Inr have "final (create self entry source fn kw con) =
        s\<lparr>u_data := snd (for_rows (\<lambda>key row. case v key row of Inl e \<Rightarrow> Inl e
                                               | Inr t \<Rightarrow> Inr (row @ [t])) (u_data s))\<rparr>"
      by (simp add: create_def run_rows_final)
    with Inr show ?thesis by blast
  qed
qed

text \<open>
  Apart from entries that collide with what is bound already, alias consistency is
  kept. Take a Dictionary that is alias-consistent, and an entry that is a spelling in
  \<open>_header\<close> already, or whose canonical name is not in \<open>header\<close> and for which none of
  the spellings that lines 220 and 221 bind is in \<open>_header\<close>. Then the Dictionary is
  alias-consistent after \<open>add_entries\<close>, whether the call returns or raises.
\<close>

lemma alias_consistent_kept:
  assumes "alias_consistent self"
    and "contains (u_header self) entry \<or> unregistered self entry \<and> unbound self entry"
  shows "alias_consistent (final (add_entries self entry source fn override kw con))"
proof -
  consider "final (add_entries self entry source fn override kw con) = self"
    | kw' con' where "\<not> contains (u_header self) entry"
        "add_entries self entry source fn override kw con = create self entry source fn kw' con'"
    | kw' con' where
        "add_entries self entry source fn override kw con = replace self entry source fn kw' con'"
    using add_entries_outcome [of self entry source fn override kw con] by blast
  then show ?thesis
  proof cases
    case 1
    with assms(1) show ?thesis by simp
  next
    case 2
    with assms(2) have new: "unregistered self entry" "unbound self entry" by auto
    from create_final [of self entry source fn kw' con'] consider
      e s where "register self entry = Inl (e, s)" "final (create self entry source fn kw' con') = s"
      | s rows where "register self entry = Inr s"
          "final (create self entry source fn kw' con') = s\<lparr>u_data := rows\<rparr>"
      by blast
    then show ?thesis
    proof cases
      case 1
      with consistent_unregistered [OF assms(1) new] show ?thesis by (simp add: 2(2))
    next
      case 2
      with consistent_registered [OF assms(1) new] show ?thesis
        by (simp add: \<open>add_entries self entry source fn override kw con =
              create self entry source fn kw' con'\<close>)
    qed
  next
    case 3
    obtain rows where "final (replace self entry source fn kw' con') = self\<lparr>u_data := rows\<rparr>"
      using replace_final by blast
    with 3 assms(1) show ?thesis by simp
  qed
qed

section \<open>Row width\<close>

lemma for_rows_None_set:
  assumes "for_rows body rows = (None, rows')" and "(key, row') \<in> set rows'"
  shows "\<exists>row. (key, row) \<in> set rows \<and> body key row = Inr row'"
proof -
  from assms(2) obtain n where n: "n < length rows'" "rows' ! n = (key, row')"
    by (auto simp: in_set_conv_nth)
  from for_rows_None [OF assms(1)] have
    l: "length rows = length rows'" and
    p: "(\<lambda>(key, row) (key', row'). key' = key \<and> body key row = Inr row') (rows ! n) (rows' ! n)"
    using n(1) by (auto simp: list_all2_conv_all_nth)
  obtain k r where kr: "rows ! n = (k, r)" by (cases "rows ! n")
  with p n(2) have "k = key" "body key r = Inr row'" by auto
  moreover from kr l n(1) have "(k, r) \<in> set rows" by (metis nth_mem)
  ultimately show ?thesis by blast
qed

lemma column_count_update:
  "column_count (self\<lparr>header := AList.update name i (header self)\<rparr>) =
     (if contains (header self) name then column_count self else Suc (column_count self))"
  by (simp add: column_count_def update_keys contains_iff length_remdups_card_conv)

lemma column_count_registered:
  assumes "register self entry = Inr self'" and "unregistered self entry"
  shows "column_count self' = Suc (column_count self)"
proof -
  from register_Inr [OF assms(1)] obtain name m as i where
    r: "canonical self entry = Inr name"
       "self' = (new_alias self entry)
          \<lparr>u_header := bind_aliases as (m + 1) (u_header self),
           header := AList.update name i (header self),
           entries := sort (remdups (entries self @ [entry]))\<rparr>"
    by blast
  from r(1) assms(2) have "\<not> contains (header self) name"
    by (simp add: unregistered_def)
  then have "column_count (self\<lparr>header := AList.update name i (header self)\<rparr>) =
      Suc (column_count self)"
    by (simp add: column_count_update)
  then show ?thesis
    by (simp add: r(2) column_count_def)
qed

lemma create_Returned:
  assumes "create self entry source fn kw con = Returned self' con'"
  shows "\<exists>s v rows. register self entry = Inr s \<and> derive s source fn kw = Inr v \<and>
     for_rows (\<lambda>key row. case v key row of Inl e \<Rightarrow> Inl e | Inr t \<Rightarrow> Inr (row @ [t]))
       (u_data self) = (None, rows) \<and>
     self' = s\<lparr>u_data := rows\<rparr> \<and> con' = con"
proof (cases "register self entry")
  case (Inl p)
  with assms show ?thesis by (cases p) (simp add: create_def)
next
  case (Inr s)
  show ?thesis
  proof (cases "derive s source fn kw")
    case (Inl e)
    with Inr assms show ?thesis by (simp add: create_def)
  next
    case v: (Inr v)
    from assms Inr v have "run_rows s con
        (\<lambda>key row. case v key row of Inl e \<Rightarrow> Inl e | Inr t \<Rightarrow> Inr (row @ [t])) =
        Returned self' con'"
      by (simp add: create_def)
    then obtain rows where
      "for_rows (\<lambda>key row. case v key row of Inl e \<Rightarrow> Inl e | Inr t \<Rightarrow> Inr (row @ [t]))
         (u_data s) = (None, rows)" "self' = s\<lparr>u_data := rows\<rparr>" "con' = con"
      unfolding run_rows_Returned by blast
    with Inr v show ?thesis
      by (simp add: register_data [OF Inr])
  qed
qed

text \<open>
  Apart from entries whose canonical name is registered under another spelling, the
  row width is kept. Take a Dictionary in which every row has as many cells as
  \<open>header\<close> has canonical names, and an entry that is a spelling in \<open>_header\<close> already or
  whose canonical name is not in \<open>header\<close>. Then after a call of \<open>add_entries\<close> that
  returns every row has as many cells as \<open>header\<close> has canonical names.
\<close>

lemma row_width_kept:
  assumes "row_width self"
    and "add_entries self entry source fn override kw con = Returned self' con'"
    and "contains (u_header self) entry \<or> unregistered self entry"
  shows "row_width self'"
proof -
  consider "final (add_entries self entry source fn override kw con) = self"
    | kw' con'' where "\<not> contains (u_header self) entry"
        "add_entries self entry source fn override kw con = create self entry source fn kw' con''"
    | kw' con'' where
        "add_entries self entry source fn override kw con = replace self entry source fn kw' con''"
    using add_entries_outcome [of self entry source fn override kw con] by blast
  then show ?thesis
  proof cases
    case 1
    with assms(1,2) show ?thesis by simp
  next
    case 2
    with assms(3) have new: "unregistered self entry" by auto
    from 2(2) assms(2) have "create self entry source fn kw' con'' = Returned self' con'"
      by simp
    from create_Returned [OF this] obtain s v rows where
      c: "register self entry = Inr s"
         "for_rows (\<lambda>key row. case v key row of Inl e \<Rightarrow> Inl e | Inr t \<Rightarrow> Inr (row @ [t]))
            (u_data self) = (None, rows)"
         "self' = s\<lparr>u_data := rows\<rparr>"
      by blast
    have n: "column_count self' = Suc (column_count self)"
      using column_count_registered [OF c(1) new] by (simp add: c(3) column_count_def)
    have "length row' = Suc (column_count self)" if "(key, row') \<in> set rows" for key row'
    proof -
      from for_rows_None_set [OF c(2) that] obtain row where
        "(key, row) \<in> set (u_data self)"
        "(case v key row of Inl e \<Rightarrow> Inl e | Inr t \<Rightarrow> Inr (row @ [t])) = Inr row'"
        by blast
      with assms(1) show ?thesis
        by (auto simp: row_width_def split: sum.splits)
    qed
    with n show ?thesis
      by (auto simp: row_width_def c(3))
  next
    case 3
    with assms(2) have "replace self entry source fn kw' con'' = Returned self' con'"
      by simp
    from replace_Returned [OF this] obtain rIdx v rows where
      c: "for_rows (\<lambda>key row. case v key row of Inl e \<Rightarrow> Inl e | Inr t \<Rightarrow> list_setitem row rIdx t)
            (u_data self) = (None, rows)"
         "self' = self\<lparr>u_data := rows\<rparr>"
      by blast
    have "length row' = column_count self" if "(key, row') \<in> set rows" for key row'
    proof -
      from for_rows_None_set [OF c(1) that] obtain row where
        "(key, row) \<in> set (u_data self)"
        "(case v key row of Inl e \<Rightarrow> Inl e | Inr t \<Rightarrow> list_setitem row rIdx t) = Inr row'"
        by blast
      with assms(1) show ?thesis
        by (auto simp: row_width_def list_setitem_def split: sum.splits if_splits)
    qed
    then show ?thesis
      by (auto simp: row_width_def c(2) column_count_def)
  qed
qed

section \<open>The create path as a whole\<close>

lemma create_path:
  assumes "entry \<noteq> []" and "\<not> contains (u_header self) entry"
    and "register self entry = Inr self'"
  shows "\<exists>name m. canonical self entry = Inr name \<and>
      py_max (map snd (u_header self)) = Inr m \<and>
      (\<not> contains (u_alias2 self) (lower entry) \<longrightarrow>
         name = lower entry \<and> spellings self entry = [lower entry, upper entry]) \<and>
      map_of (u_alias2 self') name = Some (spellings self entry) \<and>
      (\<forall>a \<in> set (spellings self entry). map_of (u_header self') a = Some (m + 1)) \<and>
      (\<forall>a. a \<notin> set (spellings self entry) \<longrightarrow>
         map_of (u_header self') a = map_of (u_header self) a) \<and>
      map_of (header self') name = map_of (u_header self') name \<and>
      entries self' = sort (remdups (entries self @ [entry])) \<and>
      u_data self' = u_data self \<and>
      (\<forall>v g. derive self' source fn kw = Inr v \<and>
         (\<forall>(key, row) \<in> set (u_data self). v key row = Inr (g key row)) \<longrightarrow>
         add_entries self entry source fn False kw con =
           Returned (self'\<lparr>u_data := map (\<lambda>(key, row). (key, row @ [g key row]))
                                        (u_data self)\<rparr>) con)"
proof -
  from register_Inr [OF assms(3)] obtain name m as i where
    r: "canonical self entry = Inr name"
       "py_max (map snd (u_header self)) = Inr m"
       "getitem (u_alias2 (new_alias self entry)) name = Inr as"
       "getitem (bind_aliases as (m + 1) (u_header self)) name = Inr i"
       "self' = (new_alias self entry)
          \<lparr>u_header := bind_aliases as (m + 1) (u_header self),
           header := AList.update name i (header self),
           entries := sort (remdups (entries self @ [entry]))\<rparr>"
    by blast
  have sp: "spellings self entry = as"
    using r(1,3) by (rule spellings_Inr)
  have d: "name = lower entry \<and> spellings self entry = [lower entry, upper entry]"
    if "\<not> contains (u_alias2 self) (lower entry)"
  proof -
    from that r(1) have n: "name = lower entry" by (simp add: canonical_default)
    with that r(3) have "as = [lower entry, upper entry]"
      by (simp add: getitem_Inr alias2_new_alias)
    with n sp show ?thesis by simp
  qed
  have a2: "map_of (u_alias2 self') name = Some (spellings self entry)"
    using r(3) by (simp add: r(5) sp getitem_Inr)
  have b: "\<forall>a \<in> set (spellings self entry). map_of (u_header self') a = Some (m + 1)"
    by (simp add: r(5) sp map_of_bind_aliases)
  have k: "\<forall>a. a \<notin> set (spellings self entry) \<longrightarrow>
         map_of (u_header self') a = map_of (u_header self) a"
    by (simp add: r(5) sp map_of_bind_aliases)
  have h: "map_of (header self') name = map_of (u_header self') name"
    using r(4) by (simp add: r(5) getitem_Inr update_conv')
  have e: "entries self' = sort (remdups (entries self @ [entry]))"
    by (simp add: r(5))
  have rows: "add_entries self entry source fn False kw con =
           Returned (self'\<lparr>u_data := map (\<lambda>(key, row). (key, row @ [g key row]))
                                        (u_data self)\<rparr>) con"
    if "derive self' source fn kw = Inr v \<and>
         (\<forall>(key, row) \<in> set (u_data self). v key row = Inr (g key row))" for v g
  proof -
    have "create self entry source fn kw con =
           Returned (self'\<lparr>u_data := map (\<lambda>(key, row). (key, row @ [g key row]))
                                        (u_data self)\<rparr>) con"
      by (rule create_all [OF assms(3), where v = v]) (use that in auto)
    with assms(1,2) show ?thesis by (simp add: add_entries_create)
  qed
  show ?thesis
    using r(1,2) d a2 b k h e register_data [OF assms(3)] rows by blast
qed

lemma tokens_evaluated:
  "add_entries sample ''tokens'' (Name ''head'') exclaim False [] quiet = Returned extended quiet"
proof -
  have 1: "\<not> contains (u_header sample) ''tokens''"
    by (simp add: eval_defs)
  have 2: "add_entries sample ''tokens'' (Name ''head'') exclaim False [] quiet =
           create sample ''tokens'' (Name ''head'') exclaim [] quiet"
    using 1 by (simp add: add_entries_create)
  show ?thesis
    unfolding 2 by (simp add: eval_defs extended_def)
qed

lemma translation_evaluated:
  "add_entries sample ''translation'' (Name ''head'') exclaim True [] quiet =
     Returned (sample\<lparr>u_data := [(1, [''hand'', ''hand!'']), (2, [''foot'', ''foot!''])]\<rparr>) quiet"
proof -
  have 1: "contains (header sample) ''translation''"
    by (simp add: eval_defs)
  have 2: "add_entries sample ''translation'' (Name ''head'') exclaim True [] quiet =
           replace sample ''translation'' (Name ''head'') exclaim [] quiet"
    using 1 by (simp add: add_entries_replace)
  show ?thesis
    unfolding 2 by (simp add: eval_defs)
qed

lemma parted_inconsistent:
  "alias_consistent kopf \<and> \<not> contains (u_header kopf) ''Head'' \<and>
   add_entries kopf ''Head'' (Name ''kopf'') exclaim False [] quiet = Returned parted quiet \<and>
   contains (header parted) ''kopf'' \<and>
   map_of (u_alias2 parted) ''kopf'' = Some [''head'', ''kopf''] \<and>
   map_of (u_header parted) ''head'' = Some 1 \<and>
   map_of (u_header parted) ''kopf'' = Some 0 \<and>
   \<not> alias_consistent parted"
proof -
  have 1: "alias_consistent kopf"
    by (simp add: alias_consistent_def agree_def kopf_def)
  have 2: "\<not> alias_consistent parted"
    by (simp add: alias_consistent_def agree_def parted_def)
  have 3: "contains (header parted) ''kopf''" "map_of (u_alias2 parted) ''kopf'' = Some [''head'', ''kopf'']"
    "map_of (u_header parted) ''head'' = Some 1" "map_of (u_header parted) ''kopf'' = Some 0"
    by (simp_all add: parted_def contains_def)
  show ?thesis
    using 1 2 3 respelt_alias_evaluated by simp
qed

lemma widened_uneven:
  "row_width sample \<and> \<not> contains (u_header sample) ''Head'' \<and>
   add_entries sample ''Head'' (Name ''translation'') exclaim False [] quiet =
     Returned widened quiet \<and>
   column_count widened = 2 \<and> map (length \<circ> snd) (u_data widened) = [3, 3] \<and>
   \<not> row_width widened"
proof -
  have 1: "row_width sample"
    by (simp add: row_width_def column_count_def sample_def)
  have 2: "\<not> row_width widened" "column_count widened = 2"
    "map (length \<circ> snd) (u_data widened) = [3, 3]"
    by (simp_all add: row_width_def column_count_def widened_def)
  show ?thesis
    using 1 2 respelt_column_evaluated by simp
qed

section \<open>Entries spelt in another case\<close>

lemma head_conflict_evaluated:
  "add_entries kopf ''head'' (Name ''kopf'') exclaim False [] quiet =
     Raised EOFError kopf \<lparr>stdin = [], stdout = [AlreadyProduced ''head'', Prompt]\<rparr>"
  by (subst add_entries.simps) (simp add: eval_defs kopf_def)

text \<open>
  C1, at a failing input. In the Dictionary \<open>kopf\<close> the registered column \<open>kopf\<close> has the
  alias list \<open>[head, kopf]\<close>, both spellings are at index 0 and \<open>_alias\<close> takes \<open>head\<close> to
  \<open>kopf\<close>. The entry \<open>Head\<close> is not a spelling in \<open>_header\<close>, so the test of line 192
  sees no conflict, though the column is registered under \<open>entry.lower()\<close>, which is
  bound: the call with \<open>head\<close> itself reaches the prompt. Line 208 finds no alias list
  for \<open>head\<close>, makes the default pair and overwrites the alias of \<open>head\<close>; \<open>head\<close> and
  \<open>HEAD\<close> are bound to the new index 1. After the call the aliases \<open>head\<close> and \<open>kopf\<close> of
  the registered column \<open>kopf\<close> have the indices 1 and 0.
\<close>

theorem respelt_alias_splits_column:
  "map_of (u_alias2 kopf) ''kopf'' = Some [''head'', ''kopf''] \<and>
   map_of (u_alias kopf) ''head'' = Some ''kopf'' \<and>
   map_of (u_header kopf) ''head'' = Some 0 \<and>
   map_of (u_header kopf) ''kopf'' = Some 0 \<and>
   \<not> contains (u_header kopf) ''Head'' \<and>
   add_entries kopf ''Head'' (Name ''kopf'') exclaim False [] quiet = Returned parted quiet \<and>
   contains (header parted) ''kopf'' \<and>
   map_of (u_alias2 parted) ''kopf'' = Some [''head'', ''kopf''] \<and>
   map_of (u_alias parted) ''head'' = Some ''head'' \<and>
   map_of (u_header parted) ''head'' = Some 1 \<and>
   map_of (u_header parted) ''kopf'' = Some 0 \<and>
   add_entries kopf ''head'' (Name ''kopf'') exclaim False [] quiet =
     Raised EOFError kopf \<lparr>stdin = [], stdout = [AlreadyProduced ''head'', Prompt]\<rparr>"
proof -
  have 1: "map_of (u_alias2 kopf) ''kopf'' = Some [''head'', ''kopf'']"
    "map_of (u_alias kopf) ''head'' = Some ''kopf''"
    "map_of (u_header kopf) ''head'' = Some 0" "map_of (u_header kopf) ''kopf'' = Some 0"
    by (simp_all add: kopf_def)
  have 2: "contains (header parted) ''kopf''"
    "map_of (u_alias2 parted) ''kopf'' = Some [''head'', ''kopf'']"
    "map_of (u_alias parted) ''head'' = Some ''head''"
    "map_of (u_header parted) ''head'' = Some 1" "map_of (u_header parted) ''kopf'' = Some 0"
    by (simp_all add: parted_def contains_def)
  show ?thesis
    using 1 2 respelt_alias_evaluated head_conflict_evaluated by simp
qed

lemma head_respelt_conflict_evaluated:
  "add_entries sample ''head'' (Name ''translation'') exclaim False [] quiet =
     Raised EOFError sample \<lparr>stdin = [], stdout = [AlreadyProduced ''head'', Prompt]\<rparr>"
  by (subst add_entries.simps) (simp add: eval_defs)

text \<open>
  C2, at a failing input. The sample has two canonical names in \<open>header\<close> and two cells
  in every row. The entry \<open>Head\<close> is not a spelling in \<open>_header\<close>, so the test of line 192
  sees no conflict, though the column is registered under \<open>entry.lower()\<close>, which is
  there: the call with \<open>head\<close> itself reaches the prompt. The call with \<open>Head\<close> returns;
  \<open>head\<close> has moved to index 2, every row has three cells and \<open>header\<close> still has two
  canonical names.
\<close>

theorem respelt_column_widens_rows:
  "column_count sample = 2 \<and> map (length \<circ> snd) (u_data sample) = [2, 2] \<and>
   map_of (header sample) ''head'' = Some 0 \<and>
   \<not> contains (u_header sample) ''Head'' \<and>
   add_entries sample ''Head'' (Name ''translation'') exclaim False [] quiet =
     Returned widened quiet \<and>
   column_count widened = 2 \<and> map (length \<circ> snd) (u_data widened) = [3, 3] \<and>
   map_of (header widened) ''head'' = Some 2 \<and>
   add_entries sample ''head'' (Name ''translation'') exclaim False [] quiet =
     Raised EOFError sample \<lparr>stdin = [], stdout = [AlreadyProduced ''head'', Prompt]\<rparr>"
proof -
  have 1: "column_count sample = 2" "map (length \<circ> snd) (u_data sample) = [2, 2]"
    "map_of (header sample) ''head'' = Some 0"
    by (simp_all add: column_count_def sample_def)
  have 2: "column_count widened = 2" "map (length \<circ> snd) (u_data widened) = [3, 3]"
    "map_of (header widened) ''head'' = Some 2"
    by (simp_all add: column_count_def widened_def)
  show ?thesis
    using 1 2 respelt_column_evaluated head_respelt_conflict_evaluated by simp
qed

text \<open>
  C5, at a failing input. \<open>HEAD\<close> is a spelling of the column \<open>head\<close> in \<open>_header\<close>, at
  index 0, but not a key of \<open>header\<close>. With \<open>override = True\<close> the test of line 188 takes
  it for an unknown column and calls again without override; that call finds \<open>HEAD\<close> in
  \<open>_header\<close> and asks on the console. With no line to read the call raises \<open>EOFError\<close>;
  after the answer \<open>y\<close> it asks again; after \<open>y\<close> and \<open>n\<close> it returns. In no case is a
  row written. For the spelling \<open>head\<close> the same call writes the derived value at
  index 0 of every row.
\<close>

theorem alias_override_asks:
  "map_of (u_header sample) ''HEAD'' = Some 0 \<and>
   map_of (u_header sample) ''head'' = Some 0 \<and>
   \<not> contains (header sample) ''HEAD'' \<and>
   add_entries sample ''HEAD'' (Name ''translation'') exclaim True [] quiet =
     Raised EOFError sample \<lparr>stdin = [], stdout = [AlreadyProduced ''HEAD'', Prompt]\<rparr> \<and>
   add_entries sample ''HEAD'' (Name ''translation'') exclaim True []
       \<lparr>stdin = [''y''], stdout = []\<rparr> =
     Raised EOFError sample
       \<lparr>stdin = [], stdout = [AlreadyProduced ''HEAD'', Prompt, AlreadyProduced ''HEAD'', Prompt]\<rparr> \<and>
   add_entries sample ''HEAD'' (Name ''translation'') exclaim True []
       \<lparr>stdin = [''y'', ''n''], stdout = []\<rparr> =
     Returned sample
       \<lparr>stdin = [],
        stdout = [AlreadyProduced ''HEAD'', Prompt, AlreadyProduced ''HEAD'', Prompt, Aborting]\<rparr> \<and>
   add_entries sample ''head'' (Name ''translation'') exclaim True [] quiet =
     Returned (sample\<lparr>u_data := [(1, [''mano!'', ''mano'']), (2, [''pie!'', ''pie''])]\<rparr>) quiet"
proof -
  have 1: "map_of (u_header sample) ''HEAD'' = Some 0" "map_of (u_header sample) ''head'' = Some 0"
    "\<not> contains (header sample) ''HEAD''"
    by (simp_all add: sample_def contains_def)
  have 2: "add_entries sample ''HEAD'' (Name ''translation'') exclaim True [] quiet =
     Raised EOFError sample \<lparr>stdin = [], stdout = [AlreadyProduced ''HEAD'', Prompt]\<rparr>"
    by (subst add_entries.simps, simp add: eval_defs, subst add_entries.simps)
       (simp add: eval_defs)
  have 3: "add_entries sample ''HEAD'' (Name ''translation'') exclaim True []
       \<lparr>stdin = [''y''], stdout = []\<rparr> =
     Raised EOFError sample
       \<lparr>stdin = [], stdout = [AlreadyProduced ''HEAD'', Prompt, AlreadyProduced ''HEAD'', Prompt]\<rparr>"
    by (subst add_entries.simps, simp add: eval_defs, subst add_entries.simps,
        simp add: eval_defs, subst add_entries.simps, simp add: eval_defs,
        subst add_entries.simps) (simp add: eval_defs)
  have 4: "add_entries sample ''HEAD'' (Name ''translation'') exclaim True []
       \<lparr>stdin = [''y'', ''n''], stdout = []\<rparr> =
     Returned sample
       \<lparr>stdin = [],
        stdout = [AlreadyProduced ''HEAD'', Prompt, AlreadyProduced ''HEAD'', Prompt, Aborting]\<rparr>"
    by (subst add_entries.simps, simp add: eval_defs, subst add_entries.simps,
        simp add: eval_defs, subst add_entries.simps, simp add: eval_defs,
        subst add_entries.simps) (simp add: eval_defs)
  have 5: "add_entries sample ''head'' (Name ''translation'') exclaim True [] quiet =
     Returned (sample\<lparr>u_data := [(1, [''mano!'', ''mano'']), (2, [''pie!'', ''pie''])]\<rparr>) quiet"
    by (subst add_entries.simps) (simp add: eval_defs)
  show ?thesis
    using 1 2 3 4 5 by simp
qed

end
